theory Spec2Isabelle
  imports Main
begin

section \<open>Errors, requests and the transport\<close>

text \<open>
  The functions of \<^verbatim>\<open>devices_policy.go\<close> are methods of the API client. Each one builds
  a URI, hands a request to \<^verbatim>\<open>api.makeRequestContext\<close>, decodes the bytes that come back
  with \<^verbatim>\<open>json.Unmarshal\<close> and returns a value together with an \<^verbatim>\<open>error\<close>.

  Go's \<^verbatim>\<open>error\<close> values are modelled by a datatype: an error produced by a collaborator
  (transport or decoder) carries its message, and \<^verbatim>\<open>fmt.Errorf\<close> with the verb
  \<^verbatim>\<open>%w\<close> builds an error that has a message of its own and wraps the original one.
\<close>

type_synonym bytes = string

datatype error = Failure string | WrapError string error

text \<open>\<^verbatim>\<open>err.Error()\<close>: the message of an error.\<close>

fun Error :: "error \<Rightarrow> string" where
  "Error (Failure m) = m"
| "Error (WrapError m e) = m"

text \<open>\<^verbatim>\<open>errors.Unwrap(err)\<close>: the error wrapped by \<^verbatim>\<open>%w\<close>, if there is one.\<close>

fun Unwrap :: "error \<Rightarrow> error option" where
  "Unwrap (Failure m) = None"
| "Unwrap (WrapError m e) = Some e"

text \<open>\<^verbatim>\<open>fmt.Errorf("%s: %w", s, err)\<close>.\<close>

definition Errorf_w :: "string \<Rightarrow> error \<Rightarrow> error" where
  "Errorf_w s err = WrapError (s @ '': '' @ Error err) err"

datatype http_method = MethodGet | MethodPost | MethodPatch | MethodDelete

section \<open>Data model\<close>

text \<open>
  A Go pointer field (\<^verbatim>\<open>*bool\<close>, \<^verbatim>\<open>*int\<close>, \<^verbatim>\<open>*string\<close>, \<^verbatim>\<open>*[]T\<close>)
  is an \<open>option\<close>: \<open>None\<close> is \<^verbatim>\<open>nil\<close>. Go's \<^verbatim>\<open>int\<close> is modelled by \<open>int\<close>;
  the functions of this file only compare such values with \<open>1\<close>, so no operation on
  them can overflow. A slice is a list, the \<^verbatim>\<open>nil\<close> slice being \<open>[]\<close>.
\<close>

record Enabled =
  Enabled :: bool

type_synonym ServiceMode = string

definition oneDotOne :: ServiceMode where "oneDotOne = ''1dot1''"
definition warp :: ServiceMode where "warp = ''warp''"
definition proxy :: ServiceMode where "proxy = ''proxy''"
definition postureOnly :: ServiceMode where "postureOnly = ''posture_only''"
definition warpTunnelOnly :: ServiceMode where "warpTunnelOnly = ''warp_tunnel_only''"
definition listDeviceSettingsPoliciesDefaultPageSize :: int where
  "listDeviceSettingsPoliciesDefaultPageSize = 20"

record ServiceModeV2 =
  Mode :: ServiceMode
  Port :: int

text \<open>
  The element types \<^verbatim>\<open>FallbackDomain\<close> and \<^verbatim>\<open>SplitTunnel\<close> are declared in
  another file of the package; they are the type parameters \<open>'f\<close> and \<open>'s\<close>.
\<close>

record ('f, 's) DeviceSettingsPolicy =
  ServiceModeV2 :: "ServiceModeV2 option"
  DisableAutoFallback :: "bool option"
  FallbackDomains :: "'f list option"
  Include :: "'s list option"
  Exclude :: "'s list option"
  GatewayUniqueID :: "string option"
  SupportURL :: "string option"
  CaptivePortal :: "int option"
  AllowModeSwitch :: "bool option"
  SwitchLocked :: "bool option"
  AllowUpdates :: "bool option"
  AutoConnect :: "int option"
  AllowedToLeave :: "bool option"
  PolicyID :: "string option"
  Enabled :: "bool option"
  Name :: "string option"
  Match :: "string option"
  Precedence :: "int option"
  Default :: bool
  ExcludeOfficeIps :: "bool option"
  Description :: "string option"

record DeviceSettingsPolicyRequest =
  DisableAutoFallback :: "bool option"
  CaptivePortal :: "int option"
  AllowModeSwitch :: "bool option"
  SwitchLocked :: "bool option"
  AllowUpdates :: "bool option"
  AutoConnect :: "int option"
  AllowedToLeave :: "bool option"
  SupportURL :: "string option"
  ServiceModeV2 :: "ServiceModeV2 option"
  Precedence :: "int option"
  Name :: "string option"
  Match :: "string option"
  Enabled :: "bool option"
  ExcludeOfficeIps :: "bool option"
  Description :: "string option"

text \<open>
  Modelled from the spec: the types \<^verbatim>\<open>Response\<close> and \<^verbatim>\<open>ResultInfo\<close> are declared
  in another file of the package. The spec describes the envelope as "a common structure carrying a
  success indicator, error list" and the \<^verbatim>\<open>result_info\<close> block as holding
  \<^verbatim>\<open>page\<close>, \<^verbatim>\<open>per_page\<close>, \<^verbatim>\<open>count\<close>, \<^verbatim>\<open>total_count\<close> and
  \<^verbatim>\<open>total_pages\<close>. The source reads and writes \<^verbatim>\<open>Page\<close> and \<^verbatim>\<open>PerPage\<close>.
\<close>

record Response =
  Success :: bool
  Errors :: "string list"

record ResultInfo =
  Page :: int
  PerPage :: int
  Count :: int
  TotalCount :: int
  TotalPages :: int

record DeviceClientCertificatesZone =
  Response :: Response
  Result :: Enabled

record ('f, 's) DeviceSettingsPolicyResponse =
  Response :: Response
  Result :: "('f, 's) DeviceSettingsPolicy"

record ('f, 's) DeleteDeviceSettingsPolicyResponse =
  Response :: Response
  Result :: "('f, 's) DeviceSettingsPolicy list"

record ('f, 's) ListDeviceSettingsPoliciesResponse =
  Response :: Response
  ResultInfo :: ResultInfo
  Result :: "('f, 's) DeviceSettingsPolicy list"

text \<open>
  \<^verbatim>\<open>ListDeviceSettingsPoliciesParams\<close> embeds \<^verbatim>\<open>ResultInfo\<close> and has no field of
  its own.
\<close>

type_synonym ListDeviceSettingsPoliciesParams = ResultInfo

subsection \<open>Zero values\<close>

text \<open>The value of a Go composite literal \<^verbatim>\<open>T{}\<close> and of \<^verbatim>\<open>var x T\<close>.\<close>

definition zero_Response :: Response where
  "zero_Response = \<lparr>Success = False, Errors = []\<rparr>"

definition zero_ResultInfo :: ResultInfo where
  "zero_ResultInfo = \<lparr>Page = 0, PerPage = 0, Count = 0, TotalCount = 0, TotalPages = 0\<rparr>"

definition zero_DeviceSettingsPolicy :: "('f, 's) DeviceSettingsPolicy" where
  "zero_DeviceSettingsPolicy =
     \<lparr>DeviceSettingsPolicy.ServiceModeV2 = None,
      DeviceSettingsPolicy.DisableAutoFallback = None,
      FallbackDomains = None, Include = None, Exclude = None, GatewayUniqueID = None,
      DeviceSettingsPolicy.SupportURL = None,
      DeviceSettingsPolicy.CaptivePortal = None,
      DeviceSettingsPolicy.AllowModeSwitch = None,
      DeviceSettingsPolicy.SwitchLocked = None,
      DeviceSettingsPolicy.AllowUpdates = None,
      DeviceSettingsPolicy.AutoConnect = None,
      DeviceSettingsPolicy.AllowedToLeave = None,
      PolicyID = None,
      DeviceSettingsPolicy.Enabled = None,
      DeviceSettingsPolicy.Name = None,
      DeviceSettingsPolicy.Match = None,
      DeviceSettingsPolicy.Precedence = None,
      Default = False,
      DeviceSettingsPolicy.ExcludeOfficeIps = None,
      DeviceSettingsPolicy.Description = None\<rparr>"

definition zero_DeviceSettingsPolicyRequest :: DeviceSettingsPolicyRequest where
  "zero_DeviceSettingsPolicyRequest =
     \<lparr>DeviceSettingsPolicyRequest.DisableAutoFallback = None,
      DeviceSettingsPolicyRequest.CaptivePortal = None,
      DeviceSettingsPolicyRequest.AllowModeSwitch = None,
      DeviceSettingsPolicyRequest.SwitchLocked = None,
      DeviceSettingsPolicyRequest.AllowUpdates = None,
      DeviceSettingsPolicyRequest.AutoConnect = None,
      DeviceSettingsPolicyRequest.AllowedToLeave = None,
      DeviceSettingsPolicyRequest.SupportURL = None,
      DeviceSettingsPolicyRequest.ServiceModeV2 = None,
      DeviceSettingsPolicyRequest.Precedence = None,
      DeviceSettingsPolicyRequest.Name = None,
      DeviceSettingsPolicyRequest.Match = None,
      DeviceSettingsPolicyRequest.Enabled = None,
      DeviceSettingsPolicyRequest.ExcludeOfficeIps = None,
      DeviceSettingsPolicyRequest.Description = None\<rparr>"

definition zero_DeviceClientCertificatesZone :: DeviceClientCertificatesZone where
  "zero_DeviceClientCertificatesZone =
     \<lparr>DeviceClientCertificatesZone.Response = zero_Response,
      DeviceClientCertificatesZone.Result = \<lparr>Enabled.Enabled = False\<rparr>\<rparr>"

definition zero_DeviceSettingsPolicyResponse :: "('f, 's) DeviceSettingsPolicyResponse" where
  "zero_DeviceSettingsPolicyResponse =
     \<lparr>DeviceSettingsPolicyResponse.Response = zero_Response,
      DeviceSettingsPolicyResponse.Result = zero_DeviceSettingsPolicy\<rparr>"

definition zero_DeleteDeviceSettingsPolicyResponse ::
  "('f, 's) DeleteDeviceSettingsPolicyResponse" where
  "zero_DeleteDeviceSettingsPolicyResponse =
     \<lparr>DeleteDeviceSettingsPolicyResponse.Response = zero_Response,
      DeleteDeviceSettingsPolicyResponse.Result = []\<rparr>"

definition zero_ListDeviceSettingsPoliciesResponse ::
  "('f, 's) ListDeviceSettingsPoliciesResponse" where
  "zero_ListDeviceSettingsPoliciesResponse =
     \<lparr>ListDeviceSettingsPoliciesResponse.Response = zero_Response,
      ResultInfo = zero_ResultInfo,
      ListDeviceSettingsPoliciesResponse.Result = []\<rparr>"

subsection \<open>Requests and collaborators\<close>

text \<open>
  The third argument of \<^verbatim>\<open>makeRequestContext\<close> is the value to send as the JSON body:
  \<^verbatim>\<open>nil\<close>, an \<^verbatim>\<open>Enabled\<close> or a \<^verbatim>\<open>DeviceSettingsPolicyRequest\<close>.
\<close>

datatype body = NoBody | EnabledBody Enabled | PolicyBody DeviceSettingsPolicyRequest

record request =
  req_method :: http_method
  req_uri :: string
  req_params :: body

text \<open>
  Everything the functions of \<^verbatim>\<open>devices_policy.go\<close> call and that is declared in
  another file of the package or in a library is a field of the record \<open>API\<close>, so that
  every theorem holds for all of their behaviours:
  \<^item> \<open>makeRequestContext\<close> is the HTTP round trip. The effect is explicit: the list of the
    requests sent so far is the state, every call appends one request to it, and the
    reply may depend on the whole history. The context argument \<^verbatim>\<open>ctx\<close> is only passed
    on; a cancellation is one of the transport errors.
  \<^item> \<open>ZoneRouteRoot\<close>, \<open>AccountRouteRoot\<close> and \<open>errUnmarshalError\<close> are package
    constants, \<open>buildURI\<close> renders a path and the list parameters into a URI.
  \<^item> \<open>Next\<close> and \<open>Done\<close> are the methods of \<^verbatim>\<open>ResultInfo\<close> of those names.
  \<^item> \<open>Unmarshal_*\<close> is \<^verbatim>\<open>json.Unmarshal(res, &result)\<close> at each of the four result
    types. The call writes through a pointer, so the model takes the target's value
    before the call and returns its value after the call next to the error.
\<close>

record ('f, 's) API =
  makeRequestContext :: "request list \<Rightarrow> request \<Rightarrow> error + bytes"
  ZoneRouteRoot :: string
  AccountRouteRoot :: string
  errUnmarshalError :: string
  buildURI :: "string \<Rightarrow> ListDeviceSettingsPoliciesParams \<Rightarrow> string"
  Next :: "ResultInfo \<Rightarrow> ResultInfo"
  Done :: "ResultInfo \<Rightarrow> bool"
  Unmarshal_zone :: "bytes \<Rightarrow> DeviceClientCertificatesZone
                      \<Rightarrow> error option \<times> DeviceClientCertificatesZone"
  Unmarshal_policy :: "bytes \<Rightarrow> ('f, 's) DeviceSettingsPolicyResponse
                      \<Rightarrow> error option \<times> ('f, 's) DeviceSettingsPolicyResponse"
  Unmarshal_delete :: "bytes \<Rightarrow> ('f, 's) DeleteDeviceSettingsPolicyResponse
                      \<Rightarrow> error option \<times> ('f, 's) DeleteDeviceSettingsPolicyResponse"
  Unmarshal_list :: "bytes \<Rightarrow> ('f, 's) ListDeviceSettingsPoliciesResponse
                      \<Rightarrow> error option \<times> ('f, 's) ListDeviceSettingsPoliciesResponse"

section \<open>The single-resource operations\<close>

text \<open>
  Each of the eight functions is one round trip. \<^verbatim>\<open>result\<close> starts as the zero value
  of the result type; on a transport error it is returned as it is, with the error; the
  decoder then writes into \<^verbatim>\<open>result\<close>, and \<^verbatim>\<open>result\<close> is returned both when the
  decoder fails (with the error wrapped by \<^verbatim>\<open>fmt.Errorf("%s: %w", errUnmarshalError, err)\<close>)
  and when it succeeds (with a \<^verbatim>\<open>nil\<close> error).
\<close>

definition UpdateDeviceClientCertificatesZone ::
  "('f, 's) API \<Rightarrow> string \<Rightarrow> bool \<Rightarrow> request list
    \<Rightarrow> (DeviceClientCertificatesZone \<times> error option) \<times> request list" where
  "UpdateDeviceClientCertificatesZone api zoneID enable sent =
     (let uri = ''/'' @ ZoneRouteRoot api @ ''/'' @ zoneID @ ''/devices/policy/certificates'';
          result = zero_DeviceClientCertificatesZone;
          rq = \<lparr>req_method = MethodPatch, req_uri = uri, req_params = EnabledBody \<lparr>Enabled.Enabled = enable\<rparr>\<rparr>
      in case makeRequestContext api sent rq of
           Inl err \<Rightarrow> ((result, Some err), sent @ [rq])
         | Inr res \<Rightarrow>
             (case Unmarshal_zone api res result of
                (Some err, result) \<Rightarrow>
                  ((result, Some (Errorf_w (errUnmarshalError api) err)), sent @ [rq])
              | (None, result) \<Rightarrow> ((result, None), sent @ [rq])))"

definition GetDeviceClientCertificatesZone ::
  "('f, 's) API \<Rightarrow> string \<Rightarrow> request list
    \<Rightarrow> (DeviceClientCertificatesZone \<times> error option) \<times> request list" where
  "GetDeviceClientCertificatesZone api zoneID sent =
     (let uri = ''/'' @ ZoneRouteRoot api @ ''/'' @ zoneID @ ''/devices/policy/certificates'';
          result = zero_DeviceClientCertificatesZone;
          rq = \<lparr>req_method = MethodGet, req_uri = uri, req_params = NoBody\<rparr>
      in case makeRequestContext api sent rq of
           Inl err \<Rightarrow> ((result, Some err), sent @ [rq])
         | Inr res \<Rightarrow>
             (case Unmarshal_zone api res result of
                (Some err, result) \<Rightarrow>
                  ((result, Some (Errorf_w (errUnmarshalError api) err)), sent @ [rq])
              | (None, result) \<Rightarrow> ((result, None), sent @ [rq])))"

definition CreateDeviceSettingsPolicy ::
  "('f, 's) API \<Rightarrow> string \<Rightarrow> DeviceSettingsPolicyRequest \<Rightarrow> request list
    \<Rightarrow> (('f, 's) DeviceSettingsPolicyResponse \<times> error option) \<times> request list" where
  "CreateDeviceSettingsPolicy api accountID req sent =
     (let uri = ''/'' @ AccountRouteRoot api @ ''/'' @ accountID @ ''/devices/policy'';
          result = zero_DeviceSettingsPolicyResponse;
          rq = \<lparr>req_method = MethodPost, req_uri = uri, req_params = PolicyBody req\<rparr>
      in case makeRequestContext api sent rq of
           Inl err \<Rightarrow> ((result, Some err), sent @ [rq])
         | Inr res \<Rightarrow>
             (case Unmarshal_policy api res result of
                (Some err, result) \<Rightarrow>
                  ((result, Some (Errorf_w (errUnmarshalError api) err)), sent @ [rq])
              | (None, result) \<Rightarrow> ((result, None), sent @ [rq])))"

definition UpdateDefaultDeviceSettingsPolicy ::
  "('f, 's) API \<Rightarrow> string \<Rightarrow> DeviceSettingsPolicyRequest \<Rightarrow> request list
    \<Rightarrow> (('f, 's) DeviceSettingsPolicyResponse \<times> error option) \<times> request list" where
  "UpdateDefaultDeviceSettingsPolicy api accountID req sent =
     (let uri = ''/'' @ AccountRouteRoot api @ ''/'' @ accountID @ ''/devices/policy'';
          result = zero_DeviceSettingsPolicyResponse;
          rq = \<lparr>req_method = MethodPatch, req_uri = uri, req_params = PolicyBody req\<rparr>
      in case makeRequestContext api sent rq of
           Inl err \<Rightarrow> ((result, Some err), sent @ [rq])
         | Inr res \<Rightarrow>
             (case Unmarshal_policy api res result of
                (Some err, result) \<Rightarrow>
                  ((result, Some (Errorf_w (errUnmarshalError api) err)), sent @ [rq])
              | (None, result) \<Rightarrow> ((result, None), sent @ [rq])))"

definition UpdateDeviceSettingsPolicy ::
  "('f, 's) API \<Rightarrow> string \<Rightarrow> string \<Rightarrow> DeviceSettingsPolicyRequest \<Rightarrow> request list
    \<Rightarrow> (('f, 's) DeviceSettingsPolicyResponse \<times> error option) \<times> request list" where
  "UpdateDeviceSettingsPolicy api accountID policyID req sent =
     (let uri = ''/'' @ AccountRouteRoot api @ ''/'' @ accountID @ ''/devices/policy/'' @ policyID;
          result = zero_DeviceSettingsPolicyResponse;
          rq = \<lparr>req_method = MethodPatch, req_uri = uri, req_params = PolicyBody req\<rparr>
      in case makeRequestContext api sent rq of
           Inl err \<Rightarrow> ((result, Some err), sent @ [rq])
         | Inr res \<Rightarrow>
             (case Unmarshal_policy api res result of
                (Some err, result) \<Rightarrow>
                  ((result, Some (Errorf_w (errUnmarshalError api) err)), sent @ [rq])
              | (None, result) \<Rightarrow> ((result, None), sent @ [rq])))"

definition DeleteDeviceSettingsPolicy ::
  "('f, 's) API \<Rightarrow> string \<Rightarrow> string \<Rightarrow> request list
    \<Rightarrow> (('f, 's) DeleteDeviceSettingsPolicyResponse \<times> error option) \<times> request list" where
  "DeleteDeviceSettingsPolicy api accountID policyID sent =
     (let uri = ''/'' @ AccountRouteRoot api @ ''/'' @ accountID @ ''/devices/policy/'' @ policyID;
          result = zero_DeleteDeviceSettingsPolicyResponse;
          rq = \<lparr>req_method = MethodDelete, req_uri = uri, req_params = NoBody\<rparr>
      in case makeRequestContext api sent rq of
           Inl err \<Rightarrow> ((result, Some err), sent @ [rq])
         | Inr res \<Rightarrow>
             (case Unmarshal_delete api res result of
                (Some err, result) \<Rightarrow>
                  ((result, Some (Errorf_w (errUnmarshalError api) err)), sent @ [rq])
              | (None, result) \<Rightarrow> ((result, None), sent @ [rq])))"

definition GetDefaultDeviceSettingsPolicy ::
  "('f, 's) API \<Rightarrow> string \<Rightarrow> request list
    \<Rightarrow> (('f, 's) DeviceSettingsPolicyResponse \<times> error option) \<times> request list" where
  "GetDefaultDeviceSettingsPolicy api accountID sent =
     (let uri = ''/'' @ AccountRouteRoot api @ ''/'' @ accountID @ ''/devices/policy'';
          result = zero_DeviceSettingsPolicyResponse;
          rq = \<lparr>req_method = MethodGet, req_uri = uri, req_params = NoBody\<rparr>
      in case makeRequestContext api sent rq of
           Inl err \<Rightarrow> ((result, Some err), sent @ [rq])
         | Inr res \<Rightarrow>
             (case Unmarshal_policy api res result of
                (Some err, result) \<Rightarrow>
                  ((result, Some (Errorf_w (errUnmarshalError api) err)), sent @ [rq])
              | (None, result) \<Rightarrow> ((result, None), sent @ [rq])))"

definition GetDeviceSettingsPolicy ::
  "('f, 's) API \<Rightarrow> string \<Rightarrow> string \<Rightarrow> request list
    \<Rightarrow> (('f, 's) DeviceSettingsPolicyResponse \<times> error option) \<times> request list" where
  "GetDeviceSettingsPolicy api accountID policyID sent =
     (let uri = ''/'' @ AccountRouteRoot api @ ''/'' @ accountID @ ''/devices/policy/'' @ policyID;
          result = zero_DeviceSettingsPolicyResponse;
          rq = \<lparr>req_method = MethodGet, req_uri = uri, req_params = NoBody\<rparr>
      in case makeRequestContext api sent rq of
           Inl err \<Rightarrow> ((result, Some err), sent @ [rq])
         | Inr res \<Rightarrow>
             (case Unmarshal_policy api res result of
                (Some err, result) \<Rightarrow>
                  ((result, Some (Errorf_w (errUnmarshalError api) err)), sent @ [rq])
              | (None, result) \<Rightarrow> ((result, None), sent @ [rq])))"

section \<open>The list operation\<close>

definition list_request :: "('f, 's) API \<Rightarrow> string \<Rightarrow> ListDeviceSettingsPoliciesParams \<Rightarrow> request" where
  "list_request api accountID params =
     \<lparr>req_method = MethodGet,
      req_uri = buildURI api (''/'' @ AccountRouteRoot api @ ''/'' @ accountID @ ''/devices/policies'') params,
      req_params = NoBody\<rparr>"

text \<open>
  The \<^verbatim>\<open>for\<close> loop of \<^verbatim>\<open>ListDeviceSettingsPolicies\<close>. Its state is the variables
  \<^verbatim>\<open>params\<close>, \<^verbatim>\<open>policies\<close> and \<^verbatim>\<open>lastResultInfo\<close> and the requests sent so far. The
  result is the three values the Go function returns, with the final request history.
  The loop need not stop: a server that always announces a further page keeps it
  running, and then the value is \<open>None\<close>.
\<close>

partial_function (option) ListDeviceSettingsPolicies_loop ::
  "('f, 's) API \<Rightarrow> string \<Rightarrow> bool \<Rightarrow> ListDeviceSettingsPoliciesParams
    \<Rightarrow> ('f, 's) DeviceSettingsPolicy list \<Rightarrow> ResultInfo \<Rightarrow> request list
    \<Rightarrow> ((('f, 's) DeviceSettingsPolicy list \<times> ResultInfo option \<times> error option) \<times> request list) option"
where
  "ListDeviceSettingsPolicies_loop api accountID autoPaginate params policies lastResultInfo sent =
     (let rq = list_request api accountID params in
      case makeRequestContext api sent rq of
        Inl err \<Rightarrow> Some (([], None, Some err), sent @ [rq])
      | Inr res \<Rightarrow>
          (case Unmarshal_list api res zero_ListDeviceSettingsPoliciesResponse of
             (Some err, r) \<Rightarrow>
               Some (([], None, Some (Errorf_w (errUnmarshalError api) err)), sent @ [rq])
           | (None, r) \<Rightarrow>
               (let policies = policies @ ListDeviceSettingsPoliciesResponse.Result r;
                    lastResultInfo = ResultInfo r;
                    params = Next api (ResultInfo r)
                in if Done api params \<or> \<not> autoPaginate
                   then Some ((policies, Some lastResultInfo, None), sent @ [rq])
                   else ListDeviceSettingsPolicies_loop api accountID autoPaginate params
                          policies lastResultInfo (sent @ [rq]))))"

definition ListDeviceSettingsPolicies ::
  "('f, 's) API \<Rightarrow> string \<Rightarrow> ListDeviceSettingsPoliciesParams \<Rightarrow> request list
    \<Rightarrow> ((('f, 's) DeviceSettingsPolicy list \<times> ResultInfo option \<times> error option) \<times> request list) option"
where
  "ListDeviceSettingsPolicies api accountID params sent =
     (let autoPaginate = True;
          autoPaginate = (if PerPage params \<ge> 1 \<or> Page params \<ge> 1 then False else autoPaginate);
          params = (if PerPage params < 1
                    then params\<lparr>PerPage := listDeviceSettingsPoliciesDefaultPageSize\<rparr>
                    else params)
      in ListDeviceSettingsPolicies_loop api accountID autoPaginate params [] zero_ResultInfo sent)"

section \<open>Describing a run of the list operation\<close>

text \<open>
  One iteration's fetch, as a value: the transport error, the decoder's error wrapped as
  the loop wraps it, or the decoded page.
\<close>

definition fetch_page ::
  "('f, 's) API \<Rightarrow> string \<Rightarrow> ListDeviceSettingsPoliciesParams \<Rightarrow> request list
    \<Rightarrow> error + ('f, 's) ListDeviceSettingsPoliciesResponse" where
  "fetch_page api accountID params sent =
     (case makeRequestContext api sent (list_request api accountID params) of
        Inl err \<Rightarrow> Inl err
      | Inr res \<Rightarrow>
          (case Unmarshal_list api res zero_ListDeviceSettingsPoliciesResponse of
             (Some err, r) \<Rightarrow> Inl (Errorf_w (errUnmarshalError api) err)
           | (None, r) \<Rightarrow> Inr r))"

text \<open>
  \<open>served api accountID params sent rs\<close>: starting with the parameters \<open>params\<close> and the
  history \<open>sent\<close>, the pages \<open>rs\<close> are what the successive fetches of the loop return,
  each request being made with the \<open>Next\<close> of the page before.
\<close>

fun served ::
  "('f, 's) API \<Rightarrow> string \<Rightarrow> ListDeviceSettingsPoliciesParams \<Rightarrow> request list
    \<Rightarrow> ('f, 's) ListDeviceSettingsPoliciesResponse list \<Rightarrow> bool" where
  "served api accountID params sent [] = True"
| "served api accountID params sent (r # rs) =
     (fetch_page api accountID params sent = Inr r \<and>
      served api accountID (Next api (ResultInfo r))
        (sent @ [list_request api accountID params]) rs)"

text \<open>The requests of those fetches, and the loop variables after them.\<close>

fun requests_for ::
  "('f, 's) API \<Rightarrow> string \<Rightarrow> ListDeviceSettingsPoliciesParams
    \<Rightarrow> ('f, 's) ListDeviceSettingsPoliciesResponse list \<Rightarrow> request list" where
  "requests_for api accountID params [] = []"
| "requests_for api accountID params (r # rs) =
     list_request api accountID params # requests_for api accountID (Next api (ResultInfo r)) rs"

fun params_after ::
  "('f, 's) API \<Rightarrow> ListDeviceSettingsPoliciesParams
    \<Rightarrow> ('f, 's) ListDeviceSettingsPoliciesResponse list \<Rightarrow> ListDeviceSettingsPoliciesParams" where
  "params_after api params [] = params"
| "params_after api params (r # rs) = params_after api (Next api (ResultInfo r)) rs"

fun info_after ::
  "ResultInfo \<Rightarrow> ('f, 's) ListDeviceSettingsPoliciesResponse list \<Rightarrow> ResultInfo" where
  "info_after lastResultInfo [] = lastResultInfo"
| "info_after lastResultInfo (r # rs) = info_after (ResultInfo r) rs"

text \<open>
  Modelled from the spec: the methods \<^verbatim>\<open>Next\<close> and \<^verbatim>\<open>Done\<close> of \<^verbatim>\<open>ResultInfo\<close> are
  declared in another file of the package. The spec says of them: "compute the next cursor from the returned
  pagination metadata (next page = current page + 1 if current page < total pages, else
  terminal)". The predicate says this of the two fields of \<open>api\<close>, whatever value
  stands for the terminal cursor.
\<close>

definition pagination_contract :: "('f, 's) API \<Rightarrow> bool" where
  "pagination_contract api \<longleftrightarrow>
     (\<forall>ri. if Page ri < TotalPages ri
           then Next api ri = ri\<lparr>Page := Page ri + 1\<rparr> \<and> \<not> Done api (Next api ri)
           else Done api (Next api ri))"

section \<open>The JSON form of the request and of the policy\<close>

text \<open>
  The struct tags of \<^verbatim>\<open>devices_policy.go\<close> fix how \<^verbatim>\<open>json.Marshal\<close> and
  \<^verbatim>\<open>json.Unmarshal\<close> treat each field. JSON is modelled by its values, not its text:
  an object is the list of its members in order. \<open>JNumber\<close> is a number written as an
  integer; the integer fields of this file accept no other number.
\<close>

datatype json =
  JNull | JBool bool | JNumber int | JString string | JArray "json list"
| JObject "(string \<times> json) list"

fun members :: "json \<Rightarrow> (string \<times> json) list" where
  "members (JObject kvs) = kvs"
| "members j = []"

subsection \<open>Encoding\<close>

text \<open>
  A pointer encodes as \<^verbatim>\<open>null\<close> when it is \<^verbatim>\<open>nil\<close> and as its target otherwise. A field
  tagged \<^verbatim>\<open>json:"name"\<close> is always written; a pointer field tagged
  \<^verbatim>\<open>json:"name,omitempty"\<close> is left out when the pointer is \<^verbatim>\<open>nil\<close> and written
  otherwise, also when it points to \<^verbatim>\<open>false\<close>, \<^verbatim>\<open>0\<close> or \<^verbatim>\<open>""\<close>. A string or
  integer field with \<^verbatim>\<open>omitempty\<close> is left out when it is \<^verbatim>\<open>""\<close> or \<^verbatim>\<open>0\<close>. Members
  are written in the order of the struct's fields.

  For the fields of type \<^verbatim>\<open>*[]T\<close>, \<open>Some xs\<close> is a pointer to a slice that is not
  \<^verbatim>\<open>nil\<close>, as the decoder allocates it for a JSON array, and encodes as an array.
\<close>

definition marshal_ptr :: "('a \<Rightarrow> json) \<Rightarrow> 'a option \<Rightarrow> json" where
  "marshal_ptr enc v = (case v of None \<Rightarrow> JNull | Some x \<Rightarrow> enc x)"

definition field :: "string \<Rightarrow> ('a \<Rightarrow> json) \<Rightarrow> 'a option \<Rightarrow> (string \<times> json) list" where
  "field name enc v = [(name, marshal_ptr enc v)]"

definition field_omitempty :: "string \<Rightarrow> ('a \<Rightarrow> json) \<Rightarrow> 'a option \<Rightarrow> (string \<times> json) list" where
  "field_omitempty name enc v = (case v of None \<Rightarrow> [] | Some x \<Rightarrow> [(name, enc x)])"

definition marshal_ServiceModeV2 :: "ServiceModeV2 \<Rightarrow> json" where
  "marshal_ServiceModeV2 s =
     JObject ((if Mode s = [] then [] else [(''mode'', JString (Mode s))]) @
              (if Port s = 0 then [] else [(''port'', JNumber (Port s))]))"

definition marshal_DeviceSettingsPolicyRequest :: "DeviceSettingsPolicyRequest \<Rightarrow> json" where
  "marshal_DeviceSettingsPolicyRequest r =
     JObject
       (field_omitempty ''disable_auto_fallback'' JBool (DeviceSettingsPolicyRequest.DisableAutoFallback r) @
        field_omitempty ''captive_portal'' JNumber (DeviceSettingsPolicyRequest.CaptivePortal r) @
        field_omitempty ''allow_mode_switch'' JBool (DeviceSettingsPolicyRequest.AllowModeSwitch r) @
        field_omitempty ''switch_locked'' JBool (DeviceSettingsPolicyRequest.SwitchLocked r) @
        field_omitempty ''allow_updates'' JBool (DeviceSettingsPolicyRequest.AllowUpdates r) @
        field_omitempty ''auto_connect'' JNumber (DeviceSettingsPolicyRequest.AutoConnect r) @
        field_omitempty ''allowed_to_leave'' JBool (DeviceSettingsPolicyRequest.AllowedToLeave r) @
        field_omitempty ''support_url'' JString (DeviceSettingsPolicyRequest.SupportURL r) @
        field_omitempty ''service_mode_v2'' marshal_ServiceModeV2 (DeviceSettingsPolicyRequest.ServiceModeV2 r) @
        field_omitempty ''precedence'' JNumber (DeviceSettingsPolicyRequest.Precedence r) @
        field_omitempty ''name'' JString (DeviceSettingsPolicyRequest.Name r) @
        field_omitempty ''match'' JString (DeviceSettingsPolicyRequest.Match r) @
        field_omitempty ''enabled'' JBool (DeviceSettingsPolicyRequest.Enabled r) @
        field ''exclude_office_ips'' JBool (DeviceSettingsPolicyRequest.ExcludeOfficeIps r) @
        field_omitempty ''description'' JString (DeviceSettingsPolicyRequest.Description r))"

definition marshal_DeviceSettingsPolicy ::
  "('f \<Rightarrow> json) \<Rightarrow> ('s \<Rightarrow> json) \<Rightarrow> ('f, 's) DeviceSettingsPolicy \<Rightarrow> json" where
  "marshal_DeviceSettingsPolicy encF encS p =
     JObject
       (field ''service_mode_v2'' marshal_ServiceModeV2 (DeviceSettingsPolicy.ServiceModeV2 p) @
        field ''disable_auto_fallback'' JBool (DeviceSettingsPolicy.DisableAutoFallback p) @
        field ''fallback_domains'' (\<lambda>xs. JArray (map encF xs)) (DeviceSettingsPolicy.FallbackDomains p) @
        field ''include'' (\<lambda>xs. JArray (map encS xs)) (DeviceSettingsPolicy.Include p) @
        field ''exclude'' (\<lambda>xs. JArray (map encS xs)) (DeviceSettingsPolicy.Exclude p) @
        field ''gateway_unique_id'' JString (DeviceSettingsPolicy.GatewayUniqueID p) @
        field ''support_url'' JString (DeviceSettingsPolicy.SupportURL p) @
        field ''captive_portal'' JNumber (DeviceSettingsPolicy.CaptivePortal p) @
        field ''allow_mode_switch'' JBool (DeviceSettingsPolicy.AllowModeSwitch p) @
        field ''switch_locked'' JBool (DeviceSettingsPolicy.SwitchLocked p) @
        field ''allow_updates'' JBool (DeviceSettingsPolicy.AllowUpdates p) @
        field ''auto_connect'' JNumber (DeviceSettingsPolicy.AutoConnect p) @
        field ''allowed_to_leave'' JBool (DeviceSettingsPolicy.AllowedToLeave p) @
        field ''policy_id'' JString (DeviceSettingsPolicy.PolicyID p) @
        field ''enabled'' JBool (DeviceSettingsPolicy.Enabled p) @
        field ''name'' JString (DeviceSettingsPolicy.Name p) @
        field ''match'' JString (DeviceSettingsPolicy.Match p) @
        field ''precedence'' JNumber (DeviceSettingsPolicy.Precedence p) @
        [(''default'', JBool (DeviceSettingsPolicy.Default p))] @
        field ''exclude_office_ips'' JBool (DeviceSettingsPolicy.ExcludeOfficeIps p) @
        field ''description'' JString (DeviceSettingsPolicy.Description p))"

subsection \<open>Decoding\<close>

text \<open>
  The decoder walks the members of the object in order and stores each value in the
  field whose tag is the member's name; a member that names no field is skipped. For a
  pointer field \<^verbatim>\<open>null\<close> stores \<^verbatim>\<open>nil\<close>, for any other field \<^verbatim>\<open>null\<close> changes nothing.
  A value of the wrong JSON type is an error; the result is then \<open>Inl\<close>, and what had
  been stored by then is not described.
  The decoder that \<^verbatim>\<open>devices_policy.go\<close> imports, \<^verbatim>\<open>github.com/goccy/go-json\<close>, reads
  an integer of at most 19 digits by adding up its digits in 64-bit arithmetic: a number
  beyond the range of Go's \<^verbatim>\<open>int\<close> is not an error, it wraps around
  (\<^verbatim>\<open>9223372036854775808\<close> is read as \<^verbatim>\<open>-9223372036854775808\<close>). An integer with more
  than 19 digits is an error.
  Names are compared as they are spelled in the tags; Go's decoders also take a member
  whose name differs from a tag in letter case only, and the payloads considered below,
  whose member names are the tags, have no such member.
\<close>

definition unmarshal_error :: error where
  "unmarshal_error = Failure ''json: cannot unmarshal value into Go struct field''"

text \<open>Storing a decoded value with a field update, or passing the error on.\<close>

definition store :: "error + 'v \<Rightarrow> ('v \<Rightarrow> 'a) \<Rightarrow> error + 'a" where
  "store d upd = (case d of Inl e \<Rightarrow> Inl e | Inr x \<Rightarrow> Inr (upd x))"

text \<open>The integers that Go's 64-bit \<^verbatim>\<open>int\<close> holds.\<close>

definition int_fits :: "int \<Rightarrow> bool" where
  "int_fits n \<longleftrightarrow> - (2 ^ 63) \<le> n \<and> n < 2 ^ 63"

fun unmarshal_bool_ptr :: "json \<Rightarrow> error + bool option" where
  "unmarshal_bool_ptr JNull = Inr None"
| "unmarshal_bool_ptr (JBool b) = Inr (Some b)"
| "unmarshal_bool_ptr j = Inl unmarshal_error"

definition wrap_int64 :: "int \<Rightarrow> int" where
  "wrap_int64 n = (n + 2 ^ 63) mod 2 ^ 64 - 2 ^ 63"

definition unmarshal_int :: "int \<Rightarrow> error + int" where
  "unmarshal_int n = (if \<bar>n\<bar> < 10 ^ 19 then Inr (wrap_int64 n) else Inl unmarshal_error)"

fun unmarshal_int_ptr :: "json \<Rightarrow> error + int option" where
  "unmarshal_int_ptr JNull = Inr None"
| "unmarshal_int_ptr (JNumber n) = store (unmarshal_int n) Some"
| "unmarshal_int_ptr j = Inl unmarshal_error"

fun unmarshal_string_ptr :: "json \<Rightarrow> error + string option" where
  "unmarshal_string_ptr JNull = Inr None"
| "unmarshal_string_ptr (JString s) = Inr (Some s)"
| "unmarshal_string_ptr j = Inl unmarshal_error"

fun unmarshal_bool :: "json \<Rightarrow> bool \<Rightarrow> error + bool" where
  "unmarshal_bool JNull cur = Inr cur"
| "unmarshal_bool (JBool b) cur = Inr b"
| "unmarshal_bool j cur = Inl unmarshal_error"

fun unmarshal_elements :: "(json \<Rightarrow> error + 'a) \<Rightarrow> json list \<Rightarrow> error + 'a list" where
  "unmarshal_elements dec [] = Inr []"
| "unmarshal_elements dec (j # js) =
     (case dec j of
        Inl e \<Rightarrow> Inl e
      | Inr x \<Rightarrow> (case unmarshal_elements dec js of Inl e \<Rightarrow> Inl e | Inr xs \<Rightarrow> Inr (x # xs)))"

fun unmarshal_slice_ptr :: "(json \<Rightarrow> error + 'a) \<Rightarrow> json \<Rightarrow> error + 'a list option" where
  "unmarshal_slice_ptr dec JNull = Inr None"
| "unmarshal_slice_ptr dec (JArray js) =
     (case unmarshal_elements dec js of Inl e \<Rightarrow> Inl e | Inr xs \<Rightarrow> Inr (Some xs))"
| "unmarshal_slice_ptr dec j = Inl unmarshal_error"

fun unmarshal_fields ::
  "(string \<Rightarrow> json \<Rightarrow> 'a \<Rightarrow> error + 'a) \<Rightarrow> (string \<times> json) list \<Rightarrow> 'a \<Rightarrow> error + 'a" where
  "unmarshal_fields step [] x = Inr x"
| "unmarshal_fields step ((k, v) # kvs) x =
     (case step k v x of Inl e \<Rightarrow> Inl e | Inr x' \<Rightarrow> unmarshal_fields step kvs x')"

definition ServiceModeV2_field :: "string \<Rightarrow> json \<Rightarrow> ServiceModeV2 \<Rightarrow> error + ServiceModeV2" where
  "ServiceModeV2_field k v s =
     (if k = ''mode''
      then (case v of JNull \<Rightarrow> Inr s | JString m \<Rightarrow> Inr (s\<lparr>Mode := m\<rparr>) | _ \<Rightarrow> Inl unmarshal_error)
      else if k = ''port''
      then (case v of
              JNull \<Rightarrow> Inr s
            | JNumber n \<Rightarrow> store (unmarshal_int n) (\<lambda>x. s\<lparr>Port := x\<rparr>)
            | _ \<Rightarrow> Inl unmarshal_error)
      else Inr s)"

text \<open>
  A pointer to a struct: \<^verbatim>\<open>null\<close> stores \<^verbatim>\<open>nil\<close>; an object is decoded into the
  struct the pointer has, or into a new zero struct when the pointer is \<^verbatim>\<open>nil\<close>.
\<close>

definition unmarshal_ServiceModeV2_ptr ::
  "json \<Rightarrow> ServiceModeV2 option \<Rightarrow> error + ServiceModeV2 option" where
  "unmarshal_ServiceModeV2_ptr v cur =
     (case v of
        JNull \<Rightarrow> Inr None
      | JObject kvs \<Rightarrow>
          store (unmarshal_fields ServiceModeV2_field kvs
                   (case cur of None \<Rightarrow> \<lparr>Mode = [], Port = 0\<rparr> | Some s \<Rightarrow> s)) Some
      | _ \<Rightarrow> Inl unmarshal_error)"

definition DeviceSettingsPolicy_field ::
  "(json \<Rightarrow> error + 'f) \<Rightarrow> (json \<Rightarrow> error + 's) \<Rightarrow> string \<Rightarrow> json
    \<Rightarrow> ('f, 's) DeviceSettingsPolicy \<Rightarrow> error + ('f, 's) DeviceSettingsPolicy" where
  "DeviceSettingsPolicy_field decF decS k v p =
     (if k = ''service_mode_v2''
      then store (unmarshal_ServiceModeV2_ptr v (DeviceSettingsPolicy.ServiceModeV2 p)) (\<lambda>x. p\<lparr>DeviceSettingsPolicy.ServiceModeV2 := x\<rparr>)
      else if k = ''disable_auto_fallback''
      then store (unmarshal_bool_ptr v) (\<lambda>x. p\<lparr>DeviceSettingsPolicy.DisableAutoFallback := x\<rparr>)
      else if k = ''fallback_domains''
      then store (unmarshal_slice_ptr decF v) (\<lambda>x. p\<lparr>DeviceSettingsPolicy.FallbackDomains := x\<rparr>)
      else if k = ''include''
      then store (unmarshal_slice_ptr decS v) (\<lambda>x. p\<lparr>DeviceSettingsPolicy.Include := x\<rparr>)
      else if k = ''exclude''
      then store (unmarshal_slice_ptr decS v) (\<lambda>x. p\<lparr>DeviceSettingsPolicy.Exclude := x\<rparr>)
      else if k = ''gateway_unique_id''
      then store (unmarshal_string_ptr v) (\<lambda>x. p\<lparr>DeviceSettingsPolicy.GatewayUniqueID := x\<rparr>)
      else if k = ''support_url''
      then store (unmarshal_string_ptr v) (\<lambda>x. p\<lparr>DeviceSettingsPolicy.SupportURL := x\<rparr>)
      else if k = ''captive_portal''
      then store (unmarshal_int_ptr v) (\<lambda>x. p\<lparr>DeviceSettingsPolicy.CaptivePortal := x\<rparr>)
      else if k = ''allow_mode_switch''
      then store (unmarshal_bool_ptr v) (\<lambda>x. p\<lparr>DeviceSettingsPolicy.AllowModeSwitch := x\<rparr>)
      else if k = ''switch_locked''
      then store (unmarshal_bool_ptr v) (\<lambda>x. p\<lparr>DeviceSettingsPolicy.SwitchLocked := x\<rparr>)
      else if k = ''allow_updates''
      then store (unmarshal_bool_ptr v) (\<lambda>x. p\<lparr>DeviceSettingsPolicy.AllowUpdates := x\<rparr>)
      else if k = ''auto_connect''
      then store (unmarshal_int_ptr v) (\<lambda>x. p\<lparr>DeviceSettingsPolicy.AutoConnect := x\<rparr>)
      else if k = ''allowed_to_leave''
      then store (unmarshal_bool_ptr v) (\<lambda>x. p\<lparr>DeviceSettingsPolicy.AllowedToLeave := x\<rparr>)
      else if k = ''policy_id''
      then store (unmarshal_string_ptr v) (\<lambda>x. p\<lparr>DeviceSettingsPolicy.PolicyID := x\<rparr>)
      else if k = ''enabled''
      then store (unmarshal_bool_ptr v) (\<lambda>x. p\<lparr>DeviceSettingsPolicy.Enabled := x\<rparr>)
      else if k = ''name''
      then store (unmarshal_string_ptr v) (\<lambda>x. p\<lparr>DeviceSettingsPolicy.Name := x\<rparr>)
      else if k = ''match''
      then store (unmarshal_string_ptr v) (\<lambda>x. p\<lparr>DeviceSettingsPolicy.Match := x\<rparr>)
      else if k = ''precedence''
      then store (unmarshal_int_ptr v) (\<lambda>x. p\<lparr>DeviceSettingsPolicy.Precedence := x\<rparr>)
      else if k = ''default''
      then store (unmarshal_bool v (DeviceSettingsPolicy.Default p)) (\<lambda>x. p\<lparr>DeviceSettingsPolicy.Default := x\<rparr>)
      else if k = ''exclude_office_ips''
      then store (unmarshal_bool_ptr v) (\<lambda>x. p\<lparr>DeviceSettingsPolicy.ExcludeOfficeIps := x\<rparr>)
      else if k = ''description''
      then store (unmarshal_string_ptr v) (\<lambda>x. p\<lparr>DeviceSettingsPolicy.Description := x\<rparr>)
      else Inr p)"

definition unmarshal_DeviceSettingsPolicy ::
  "(json \<Rightarrow> error + 'f) \<Rightarrow> (json \<Rightarrow> error + 's) \<Rightarrow> json
    \<Rightarrow> ('f, 's) DeviceSettingsPolicy \<Rightarrow> error + ('f, 's) DeviceSettingsPolicy" where
  "unmarshal_DeviceSettingsPolicy decF decS j p =
     (case j of
        JNull \<Rightarrow> Inr p
      | JObject kvs \<Rightarrow> unmarshal_fields (DeviceSettingsPolicy_field decF decS) kvs p
      | _ \<Rightarrow> Inl unmarshal_error)"

subsection \<open>Full payloads\<close>

text \<open>The names of the 21 fields of a policy, in the order of the struct.\<close>

definition DeviceSettingsPolicy_keys :: "string list" where
  "DeviceSettingsPolicy_keys =
     [''service_mode_v2'', ''disable_auto_fallback'', ''fallback_domains'', ''include'', ''exclude'', ''gateway_unique_id'', ''support_url'', ''captive_portal'', ''allow_mode_switch'', ''switch_locked'', ''allow_updates'', ''auto_connect'', ''allowed_to_leave'', ''policy_id'', ''enabled'', ''name'', ''match'', ''precedence'', ''default'', ''exclude_office_ips'', ''description'']"

text \<open>
  Two JSON values are the same when they are equal or are objects with the same
  members, in whatever order.
\<close>

fun same_json :: "json \<Rightarrow> json \<Rightarrow> bool" where
  "same_json (JObject a) (JObject b) = (set a = set b)"
| "same_json a b = (a = b)"

fun elements :: "json \<Rightarrow> json list" where
  "elements (JArray js) = js"
| "elements j = []"

text \<open>
  A member of a \<^verbatim>\<open>service_mode_v2\<close> object that the encoder writes again: a
  \<^verbatim>\<open>mode\<close> that is a string other than \<^verbatim>\<open>""\<close>, or a \<^verbatim>\<open>port\<close> that is an integer of
  Go's \<^verbatim>\<open>int\<close> other than \<^verbatim>\<open>0\<close>. A \<^verbatim>\<open>service_mode_v2\<close> value is kept when it is an
  object whose members are of this kind and have different names; either member may be
  missing, and they may come in either order.
\<close>

fun kept_member :: "string \<times> json \<Rightarrow> bool" where
  "kept_member (k, JString m) = (k = ''mode'' \<and> m \<noteq> [])"
| "kept_member (k, JNumber n) = (k = ''port'' \<and> n \<noteq> 0 \<and> int_fits n)"
| "kept_member (k, j) = False"

fun kept_ServiceModeV2 :: "json \<Rightarrow> bool" where
  "kept_ServiceModeV2 (JObject ms) = (distinct (map fst ms) \<and> list_all kept_member ms)"
| "kept_ServiceModeV2 j = False"

text \<open>Decoding a payload into a fresh \<^verbatim>\<open>DeviceSettingsPolicy\<close> and encoding the result.\<close>

definition reencode ::
  "(json \<Rightarrow> error + 'f) \<Rightarrow> (json \<Rightarrow> error + 's) \<Rightarrow> ('f \<Rightarrow> json) \<Rightarrow> ('s \<Rightarrow> json) \<Rightarrow> json
    \<Rightarrow> error + json" where
  "reencode decF decS encF encS j =
     (case unmarshal_DeviceSettingsPolicy decF decS j zero_DeviceSettingsPolicy of
        Inl e \<Rightarrow> Inl e
      | Inr p \<Rightarrow> Inr (marshal_DeviceSettingsPolicy encF encS p))"

text \<open>
  A codec for the elements of the three lists, in the manner of the codecs above: a
  struct with one string field tagged \<^verbatim>\<open>json:"name,omitempty"\<close>, here the string
  itself. Members with other names are skipped.
\<close>

definition demo_element_field :: "string \<Rightarrow> string \<Rightarrow> json \<Rightarrow> string \<Rightarrow> error + string" where
  "demo_element_field name k v cur =
     (if k = name
      then (case v of JNull \<Rightarrow> Inr cur | JString x \<Rightarrow> Inr x | _ \<Rightarrow> Inl unmarshal_error)
      else Inr cur)"

definition demo_unmarshal_element :: "string \<Rightarrow> json \<Rightarrow> error + string" where
  "demo_unmarshal_element name j =
     (case j of
        JNull \<Rightarrow> Inr []
      | JObject ms \<Rightarrow> unmarshal_fields (demo_element_field name) ms []
      | _ \<Rightarrow> Inl unmarshal_error)"

definition demo_marshal_element :: "string \<Rightarrow> string \<Rightarrow> json" where
  "demo_marshal_element name x = JObject (if x = [] then [] else [(name, JString x)])"

definition demo_reencode :: "json \<Rightarrow> error + json" where
  "demo_reencode j =
     reencode (demo_unmarshal_element ''suffix'') (demo_unmarshal_element ''address'')
       (demo_marshal_element ''suffix'') (demo_marshal_element ''address'') j"

text \<open>
  A payload with all 21 members, given the values of \<^verbatim>\<open>service_mode_v2\<close>, of
  \<^verbatim>\<open>captive_portal\<close> and of \<^verbatim>\<open>default\<close>.
\<close>

definition demo_payload :: "json \<Rightarrow> json \<Rightarrow> json \<Rightarrow> (string \<times> json) list" where
  "demo_payload service_mode captive_portal default_policy =
     [(''service_mode_v2'', service_mode),
      (''disable_auto_fallback'', JBool False),
      (''fallback_domains'', JArray [JObject [(''suffix'', JString ''corp.example'')]]),
      (''include'', JArray []),
      (''exclude'', JArray [JObject [(''address'', JString ''10.0.0.0/8'')]]),
      (''gateway_unique_id'', JString ''gw1''),
      (''support_url'', JString ''https://support.example''),
      (''captive_portal'', captive_portal),
      (''allow_mode_switch'', JBool True),
      (''switch_locked'', JBool False),
      (''allow_updates'', JBool True),
      (''auto_connect'', JNumber 0),
      (''allowed_to_leave'', JBool True),
      (''policy_id'', JString ''p1''),
      (''enabled'', JBool True),
      (''name'', JString ''laptops''),
      (''match'', JString ''os == linux''),
      (''precedence'', JNumber 10),
      (''default'', default_policy),
      (''exclude_office_ips'', JNull),
      (''description'', JString [])]"

section \<open>A scripted transport for concrete runs\<close>

text \<open>
  A client whose transport answers the \<open>k\<close>-th request with the \<open>k\<close>-th entry of a
  list of replies, with decoders that know a few bodies. \<open>Next\<close> and \<open>Done\<close> follow
  the spec's rule, the terminal cursor being a page number beyond \<open>TotalPages\<close>.
\<close>

definition demo_policy :: "string \<Rightarrow> (unit, unit) DeviceSettingsPolicy" where
  "demo_policy n = zero_DeviceSettingsPolicy\<lparr>DeviceSettingsPolicy.Name := Some n\<rparr>"

definition demo_page ::
  "int \<Rightarrow> int \<Rightarrow> (unit, unit) DeviceSettingsPolicy list
    \<Rightarrow> (unit, unit) ListDeviceSettingsPoliciesResponse" where
  "demo_page pg pages ps =
     \<lparr>ListDeviceSettingsPoliciesResponse.Response = \<lparr>Success = True, Errors = []\<rparr>,
      ResultInfo = \<lparr>Page = pg, PerPage = 20, Count = int (length ps), TotalCount = 3,
                    TotalPages = pages\<rparr>,
      ListDeviceSettingsPoliciesResponse.Result = ps\<rparr>"

definition demo_number :: "int \<Rightarrow> string" where
  "demo_number n =
     (if n = 0 then ''0'' else if n = 1 then ''1'' else if n = 2 then ''2''
      else if n = 3 then ''3'' else if n = 5 then ''5'' else if n = 20 then ''20'' else ''?'')"

definition demo_api :: "(error + bytes) list \<Rightarrow> (unit, unit) API" where
  "demo_api replies =
     \<lparr>makeRequestContext =
        (\<lambda>sent rq. if length sent < length replies then replies ! length sent
                    else Inl (Failure ''connection refused'')),
      ZoneRouteRoot = ''zones'',
      AccountRouteRoot = ''accounts'',
      errUnmarshalError = ''error unmarshalling the JSON response'',
      buildURI = (\<lambda>path p. path @ ''?page='' @ demo_number (Page p) @
                               ''&per_page='' @ demo_number (PerPage p)),
      Next = (\<lambda>ri. if Page ri < TotalPages ri then ri\<lparr>Page := Page ri + 1\<rparr>
                     else ri\<lparr>Page := TotalPages ri + 1\<rparr>),
      Done = (\<lambda>ri. TotalPages ri < Page ri),
      Unmarshal_zone =
        (\<lambda>res target.
           if res = ''{success: true, result: {enabled: true}}''
           then (None, \<lparr>DeviceClientCertificatesZone.Response = \<lparr>Success = True, Errors = []\<rparr>,
                        DeviceClientCertificatesZone.Result = \<lparr>Enabled.Enabled = True\<rparr>\<rparr>)
           else if res = ''{success: true, result: 7}''
           then (Some (Failure ''json: cannot unmarshal number into Go value of type Enabled''),
                 target\<lparr>DeviceClientCertificatesZone.Response := \<lparr>Success = True, Errors = []\<rparr>\<rparr>)
           else (Some (Failure ''unexpected end of JSON input''), target)),
      Unmarshal_policy =
        (\<lambda>res target.
           if res = ''{success: true, result: {name: a}}''
           then (None, \<lparr>DeviceSettingsPolicyResponse.Response = \<lparr>Success = True, Errors = []\<rparr>,
                        DeviceSettingsPolicyResponse.Result = demo_policy ''a''\<rparr>)
           else (Some (Failure ''unexpected end of JSON input''), target)),
      Unmarshal_delete =
        (\<lambda>res target.
           if res = ''{success: true, result: [{name: a}]}''
           then (None, \<lparr>DeleteDeviceSettingsPolicyResponse.Response = \<lparr>Success = True, Errors = []\<rparr>,
                        DeleteDeviceSettingsPolicyResponse.Result = [demo_policy ''a'']\<rparr>)
           else (Some (Failure ''unexpected end of JSON input''), target)),
      Unmarshal_list =
        (\<lambda>res target.
           if res = ''page 1 of 2'' then (None, demo_page 1 2 [demo_policy ''a'', demo_policy ''b''])
           else if res = ''page 2 of 2'' then (None, demo_page 2 2 [demo_policy ''c''])
           else if res = ''empty page 1 of 2'' then (None, demo_page 1 2 [])
           else (Some (Failure ''unexpected end of JSON input''), target))\<rparr>"

section \<open>Describing the error returns of a single round trip\<close>

text \<open>The three paths built by \<^verbatim>\<open>fmt.Sprintf\<close> in the single-resource operations.\<close>

definition zone_uri :: "('f, 's) API \<Rightarrow> string \<Rightarrow> string" where
  "zone_uri api zoneID = ''/'' @ ZoneRouteRoot api @ ''/'' @ zoneID @ ''/devices/policy/certificates''"

definition policy_uri :: "('f, 's) API \<Rightarrow> string \<Rightarrow> string" where
  "policy_uri api accountID = ''/'' @ AccountRouteRoot api @ ''/'' @ accountID @ ''/devices/policy''"

definition policy_id_uri :: "('f, 's) API \<Rightarrow> string \<Rightarrow> string \<Rightarrow> string" where
  "policy_id_uri api accountID policyID =
     ''/'' @ AccountRouteRoot api @ ''/'' @ accountID @ ''/devices/policy/'' @ policyID"

text \<open>
  \<open>error_returns api unmarshal zero rq sent out\<close>: \<open>out\<close> is what an operation that
  sends \<open>rq\<close> and decodes with \<open>unmarshal\<close> into a variable holding \<open>zero\<close> has to
  return when it fails. If the transport fails, the zero value and the transport's
  error, unchanged. If the decoder fails, the variable as the decoder left it and the
  decoder's error wrapped with \<open>errUnmarshalError\<close>. In both cases the request has been
  sent once.
\<close>

definition error_returns ::
  "('f, 's) API \<Rightarrow> (bytes \<Rightarrow> 'a \<Rightarrow> error option \<times> 'a) \<Rightarrow> 'a \<Rightarrow> request \<Rightarrow> request list
    \<Rightarrow> ('a \<times> error option) \<times> request list \<Rightarrow> bool" where
  "error_returns api unmarshal zero rq sent out \<longleftrightarrow>
     (\<forall>err. makeRequestContext api sent rq = Inl err \<longrightarrow>
        out = ((zero, Some err), sent @ [rq])) \<and>
     (\<forall>res err result.
        makeRequestContext api sent rq = Inr res \<and> unmarshal res zero = (Some err, result) \<longrightarrow>
        out = ((result, Some (Errorf_w (errUnmarshalError api) err)), sent @ [rq]) \<and>
        Unwrap (Errorf_w (errUnmarshalError api) err) = Some err)"

section \<open>Properties of the loop\<close>

lemmas demo_simps = demo_api_def demo_page_def demo_number_def fetch_page_def list_request_def

lemma loop_transport_error:
  "makeRequestContext api sent (list_request api a p) = Inl err \<Longrightarrow>
   ListDeviceSettingsPolicies_loop api a auto p ps lri sent =
     Some (([], None, Some err), sent @ [list_request api a p])"
  by (subst ListDeviceSettingsPolicies_loop.simps) simp

lemma loop_decode_error:
  "makeRequestContext api sent (list_request api a p) = Inr res \<Longrightarrow>
   Unmarshal_list api res zero_ListDeviceSettingsPoliciesResponse = (Some err, r) \<Longrightarrow>
   ListDeviceSettingsPolicies_loop api a auto p ps lri sent =
     Some (([], None, Some (Errorf_w (errUnmarshalError api) err)), sent @ [list_request api a p])"
  by (subst ListDeviceSettingsPolicies_loop.simps) simp

lemma loop_page:
  "makeRequestContext api sent (list_request api a p) = Inr res \<Longrightarrow>
   Unmarshal_list api res zero_ListDeviceSettingsPoliciesResponse = (None, r) \<Longrightarrow>
   ListDeviceSettingsPolicies_loop api a auto p ps lri sent =
     (if Done api (Next api (ResultInfo r)) \<or> \<not> auto
      then Some ((ps @ ListDeviceSettingsPoliciesResponse.Result r, Some (ResultInfo r), None),
                 sent @ [list_request api a p])
      else ListDeviceSettingsPolicies_loop api a auto (Next api (ResultInfo r))
             (ps @ ListDeviceSettingsPoliciesResponse.Result r) (ResultInfo r)
             (sent @ [list_request api a p]))"
  by (subst ListDeviceSettingsPolicies_loop.simps) (simp add: Let_def)

lemma fetch_page_Inr:
  "fetch_page api a p sent = Inr r \<longleftrightarrow>
   (\<exists>res. makeRequestContext api sent (list_request api a p) = Inr res \<and>
          Unmarshal_list api res zero_ListDeviceSettingsPoliciesResponse = (None, r))"
  by (auto simp: fetch_page_def split: sum.splits prod.splits option.splits)

lemma loop_fetched:
  "fetch_page api a p sent = Inr r \<Longrightarrow>
   ListDeviceSettingsPolicies_loop api a auto p ps lri sent =
     (if Done api (Next api (ResultInfo r)) \<or> \<not> auto
      then Some ((ps @ ListDeviceSettingsPoliciesResponse.Result r, Some (ResultInfo r), None),
                 sent @ [list_request api a p])
      else ListDeviceSettingsPolicies_loop api a auto (Next api (ResultInfo r))
             (ps @ ListDeviceSettingsPoliciesResponse.Result r) (ResultInfo r)
             (sent @ [list_request api a p]))"
  unfolding fetch_page_Inr by (elim exE conjE) (rule loop_page)

lemma loop_failed:
  "fetch_page api a p sent = Inl e \<Longrightarrow>
   ListDeviceSettingsPolicies_loop api a auto p ps lri sent =
     Some (([], None, Some e), sent @ [list_request api a p])"
  by (auto simp: fetch_page_def loop_transport_error loop_decode_error
           split: sum.splits prod.splits option.splits)

lemma served_append:
  "served api a p sent (rs @ rs') \<longleftrightarrow>
   served api a p sent rs \<and>
   served api a (params_after api p rs) (sent @ requests_for api a p rs) rs'"
  by (induction rs arbitrary: p sent) auto

lemma requests_for_append:
  "requests_for api a p (rs @ rs') =
   requests_for api a p rs @ requests_for api a (params_after api p rs) rs'"
  by (induction rs arbitrary: p) auto

lemma requests_for_snoc:
  "requests_for api a p (rs @ [r]) =
   list_request api a p # map (\<lambda>x. list_request api a (Next api (ResultInfo x))) rs"
  by (induction rs arbitrary: p) auto

lemma params_after_snoc: "params_after api p (rs @ [r]) = Next api (ResultInfo r)"
  by (induction rs arbitrary: p) auto

lemma info_after_snoc: "info_after lri (rs @ [r]) = ResultInfo r"
  by (induction rs arbitrary: lri) auto

lemma loop_prefix:
  "served api a p sent rs \<Longrightarrow>
   \<forall>x \<in> set rs. \<not> Done api (Next api (ResultInfo x)) \<Longrightarrow>
   rs \<noteq> [] \<longrightarrow> auto \<Longrightarrow>
   ListDeviceSettingsPolicies_loop api a auto p ps lri sent =
   ListDeviceSettingsPolicies_loop api a auto (params_after api p rs)
     (ps @ concat (map ListDeviceSettingsPoliciesResponse.Result rs)) (info_after lri rs)
     (sent @ requests_for api a p rs)"
proof (induction rs arbitrary: p ps lri sent)
  case Nil
  then show ?case by simp
next
  case (Cons r rs)
  from Cons.prems have f: "fetch_page api a p sent = Inr r"
    and s: "served api a (Next api (ResultInfo r)) (sent @ [list_request api a p]) rs"
    and n: "\<not> Done api (Next api (ResultInfo r))"
    and ns: "\<forall>x \<in> set rs. \<not> Done api (Next api (ResultInfo x))"
    and a: "auto"
    by simp_all
  show ?case
    using Cons.IH [OF s ns] n a by (simp add: loop_fetched [OF f])
qed

lemma loop_pages:
  assumes "served api a p sent (rs @ [r])"
    and "\<forall>x \<in> set rs. \<not> Done api (Next api (ResultInfo x))"
    and "rs \<noteq> [] \<longrightarrow> auto"
  shows "ListDeviceSettingsPolicies_loop api a auto p ps lri sent =
     (if Done api (Next api (ResultInfo r)) \<or> \<not> auto
      then Some ((ps @ concat (map ListDeviceSettingsPoliciesResponse.Result (rs @ [r])),
                  Some (ResultInfo r), None),
                 sent @ list_request api a p #
                   map (\<lambda>x. list_request api a (Next api (ResultInfo x))) rs)
      else ListDeviceSettingsPolicies_loop api a auto (Next api (ResultInfo r))
             (ps @ concat (map ListDeviceSettingsPoliciesResponse.Result (rs @ [r])))
             (ResultInfo r)
             (sent @ list_request api a p #
                map (\<lambda>x. list_request api a (Next api (ResultInfo x))) rs))"
proof -
  from assms(1) have s: "served api a p sent rs"
    and f: "fetch_page api a (params_after api p rs) (sent @ requests_for api a p rs) = Inr r"
    by (simp_all add: served_append)
  have rq: "sent @ requests_for api a p rs @ [list_request api a (params_after api p rs)] =
            sent @ list_request api a p #
              map (\<lambda>x. list_request api a (Next api (ResultInfo x))) rs"
    using requests_for_append [of api a p rs "[r]"] requests_for_snoc [of api a p rs r]
    by simp
  show ?thesis
    unfolding loop_prefix [OF s assms(2) assms(3)] loop_fetched [OF f]
    using rq by simp
qed

lemma loop_fails_after:
  assumes "served api a p sent rs"
    and "\<forall>x \<in> set rs. \<not> Done api (Next api (ResultInfo x))"
    and "rs \<noteq> [] \<longrightarrow> auto"
    and "fetch_page api a (params_after api p rs) (sent @ requests_for api a p rs) = Inl e"
  shows "ListDeviceSettingsPolicies_loop api a auto p ps lri sent =
     Some (([], None, Some e),
           (sent @ requests_for api a p rs) @ [list_request api a (params_after api p rs)])"
  unfolding loop_prefix [OF assms(1) assms(2) assms(3)] by (rule loop_failed [OF assms(4)])

lemma loop_outcome_induct [consumes 1, case_names failed last continue]:
  assumes run: "ListDeviceSettingsPolicies_loop api a auto p ps lri sent = Some y"
    and failed: "\<And>p ps lri sent e. fetch_page api a p sent = Inl e \<Longrightarrow>
        Q p ps lri sent (([], None, Some e), sent @ [list_request api a p])"
    and last: "\<And>p ps lri sent r. fetch_page api a p sent = Inr r \<Longrightarrow>
        Done api (Next api (ResultInfo r)) \<or> \<not> auto \<Longrightarrow>
        Q p ps lri sent
          ((ps @ ListDeviceSettingsPoliciesResponse.Result r, Some (ResultInfo r), None),
           sent @ [list_request api a p])"
    and continue: "\<And>p ps lri sent r y. fetch_page api a p sent = Inr r \<Longrightarrow>
        \<not> Done api (Next api (ResultInfo r)) \<Longrightarrow> auto \<Longrightarrow>
        Q (Next api (ResultInfo r)) (ps @ ListDeviceSettingsPoliciesResponse.Result r)
          (ResultInfo r) (sent @ [list_request api a p]) y \<Longrightarrow>
        Q p ps lri sent y"
  shows "Q p ps lri sent y"
proof -
  have "api = api \<longrightarrow> a = a \<longrightarrow> auto = auto \<longrightarrow> Q p ps lri sent y"
  proof (rule ListDeviceSettingsPolicies_loop.raw_induct
      [where P = "\<lambda>api' a' auto' p ps lri sent y.
                    api' = api \<longrightarrow> a' = a \<longrightarrow> auto' = auto \<longrightarrow> Q p ps lri sent y",
        OF _ run], goal_cases)
    case (1 loop api' a' auto' p ps lri sent y)
    note IH = "1"(1) and body = "1"(2)
    show ?case
    proof (intro impI)
      assume eqs: "api' = api" "a' = a" "auto' = auto"
      show "Q p ps lri sent y"
      proof (cases "fetch_page api a p sent")
        case (Inl e)
        with body eqs have "y = (([], None, Some e), sent @ [list_request api a p])"
          by (auto simp: fetch_page_def Let_def split: sum.splits prod.splits option.splits)
        with failed [OF Inl] show ?thesis by simp
      next
        case (Inr r)
        show ?thesis
        proof (cases "Done api (Next api (ResultInfo r)) \<or> \<not> auto")
          case True
          with body eqs Inr
          have "y = ((ps @ ListDeviceSettingsPoliciesResponse.Result r, Some (ResultInfo r), None),
                     sent @ [list_request api a p])"
            by (auto simp: fetch_page_def Let_def split: sum.splits prod.splits option.splits)
          with last [OF Inr True] show ?thesis by simp
        next
          case False
          with body eqs Inr
          have "loop api a auto (Next api (ResultInfo r))
                  (ps @ ListDeviceSettingsPoliciesResponse.Result r) (ResultInfo r)
                  (sent @ [list_request api a p]) = Some y"
            by (auto simp: fetch_page_def Let_def split: sum.splits prod.splits option.splits)
          from IH [OF this] have "Q (Next api (ResultInfo r))
                  (ps @ ListDeviceSettingsPoliciesResponse.Result r) (ResultInfo r)
                  (sent @ [list_request api a p]) y"
            by simp
          with continue [OF Inr] False show ?thesis by blast
        qed
      qed
    qed
  qed
  then show ?thesis by simp
qed

lemma loop_sent_grows:
  assumes "ListDeviceSettingsPolicies_loop api a auto p ps lri sent = Some (out, sent')"
  shows "\<exists>more. sent' = sent @ list_request api a p # more"
proof -
  have "\<exists>more. snd (out, sent') = sent @ list_request api a p # more"
    using assms by (induction rule: loop_outcome_induct) auto
  then show ?thesis by simp
qed

lemma loop_outcome:
  assumes "ListDeviceSettingsPolicies_loop api a auto p ps lri sent = Some y"
  shows "\<exists>h q. snd y = h @ [list_request api a q] \<and>
           ((\<exists>e. fetch_page api a q h = Inl e \<and> fst y = ([], None, Some e)) \<or>
            (\<exists>r. fetch_page api a q h = Inr r \<and> fst (snd (fst y)) = Some (ResultInfo r) \<and>
                 snd (snd (fst y)) = None))"
  using assms
proof (induction rule: loop_outcome_induct)
  case (failed p ps lri sent e)
  show ?case by (rule exI [of _ sent], rule exI [of _ p]) (simp add: failed)
next
  case (last p ps lri sent r)
  show ?case by (rule exI [of _ sent], rule exI [of _ p]) (simp add: last)
next
  case (continue p ps lri sent r y)
  then show ?case by simp
qed

lemma List_unfold:
  "ListDeviceSettingsPolicies api a params sent =
   ListDeviceSettingsPolicies_loop api a (Page params < 1 \<and> PerPage params < 1)
     (if PerPage params < 1 then params\<lparr>PerPage := 20\<rparr> else params) [] zero_ResultInfo sent"
  by (auto simp: ListDeviceSettingsPolicies_def listDeviceSettingsPoliciesDefaultPageSize_def
      Let_def not_le)

section \<open>Claims about the list operation\<close>



text \<open>
  C2. When the caller sets neither (\<open>page < 1\<close> and \<open>per_page < 1\<close>), the first request
  is made with \<open>per_page = 20\<close>, and if the pages \<open>rs @ [r]\<close> come back, each page of
  \<open>rs\<close> announcing a further page (\<open>page < total_pages\<close>) and \<open>r\<close> none, then the
  function returns after exactly these fetches, each later request asking for the page
  after the one just received, and the result is the concatenation of the pages' items
  in fetch order: nothing is reordered or dropped, and its length is the sum of the
  pages' lengths. \<open>Next\<close> and \<open>Done\<close> are assumed to follow the spec's rule.
\<close>

theorem auto_pagination_aggregates:
  assumes "Page params < 1" and "PerPage params < 1"
    and "pagination_contract api"
    and "served api accountID (params\<lparr>PerPage := 20\<rparr>) sent (rs @ [r])"
    and "\<forall>x \<in> set rs. Page (ResultInfo x) < TotalPages (ResultInfo x)"
    and "\<not> Page (ResultInfo r) < TotalPages (ResultInfo r)"
  shows "ListDeviceSettingsPolicies api accountID params sent =
           Some ((concat (map ListDeviceSettingsPoliciesResponse.Result (rs @ [r])),
                  Some (ResultInfo r), None),
                 sent @ list_request api accountID (params\<lparr>PerPage := 20\<rparr>) #
                   map (\<lambda>x. list_request api accountID
                               ((ResultInfo x)\<lparr>Page := Page (ResultInfo x) + 1\<rparr>)) rs)
         \<and> length (concat (map ListDeviceSettingsPoliciesResponse.Result (rs @ [r]))) =
           sum_list (map (\<lambda>x. length (ListDeviceSettingsPoliciesResponse.Result x)) (rs @ [r]))"
proof -
  from assms(3) have c: "\<And>ri. Page ri < TotalPages ri \<Longrightarrow>
      Next api ri = ri\<lparr>Page := Page ri + 1\<rparr> \<and> \<not> Done api (Next api ri)"
    and d: "\<And>ri. \<not> Page ri < TotalPages ri \<Longrightarrow> Done api (Next api ri)"
    unfolding pagination_contract_def by (metis (full_types))+
  from assms(5) c have n: "\<forall>x \<in> set rs. \<not> Done api (Next api (ResultInfo x))"
    by blast
  from assms(5) c have m: "map (\<lambda>x. list_request api accountID (Next api (ResultInfo x))) rs =
      map (\<lambda>x. list_request api accountID ((ResultInfo x)\<lparr>Page := Page (ResultInfo x) + 1\<rparr>)) rs"
    by simp
  have "ListDeviceSettingsPolicies api accountID params sent =
      ListDeviceSettingsPolicies_loop api accountID True (params\<lparr>PerPage := 20\<rparr>) []
        zero_ResultInfo sent"
    using assms(1,2) by (simp add: List_unfold)
  also have "\<dots> = Some (([] @ concat (map ListDeviceSettingsPoliciesResponse.Result (rs @ [r])),
                  Some (ResultInfo r), None),
                 sent @ list_request api accountID (params\<lparr>PerPage := 20\<rparr>) #
                   map (\<lambda>x. list_request api accountID (Next api (ResultInfo x))) rs)"
    using d [OF assms(6)] by (simp add: loop_pages [OF assms(4) n] del: map_append)
  finally have run: "ListDeviceSettingsPolicies api accountID params sent =
      Some ((concat (map ListDeviceSettingsPoliciesResponse.Result (rs @ [r])),
                  Some (ResultInfo r), None),
                 sent @ list_request api accountID (params\<lparr>PerPage := 20\<rparr>) #
                   map (\<lambda>x. list_request api accountID
                               ((ResultInfo x)\<lparr>Page := Page (ResultInfo x) + 1\<rparr>)) rs)"
    using m by simp
  have "length (concat (map ListDeviceSettingsPoliciesResponse.Result (rs @ [r]))) =
      sum_list (map (\<lambda>x. length (ListDeviceSettingsPoliciesResponse.Result x)) (rs @ [r]))"
    by (simp add: length_concat comp_def del: map_append)
  with run show ?thesis by blast
qed

theorem auto_pagination_aggregates_witness:
  "ListDeviceSettingsPolicies (demo_api [Inr ''page 1 of 2'', Inr ''page 2 of 2'']) ''acct1''
     zero_ResultInfo [] =
   Some (([demo_policy ''a'', demo_policy ''b'', demo_policy ''c''],
          Some \<lparr>Page = 2, PerPage = 20, Count = 1, TotalCount = 3, TotalPages = 2\<rparr>, None),
         [\<lparr>req_method = MethodGet,
           req_uri = ''/accounts/acct1/devices/policies?page=0&per_page=20'',
           req_params = NoBody\<rparr>,
          \<lparr>req_method = MethodGet,
           req_uri = ''/accounts/acct1/devices/policies?page=2&per_page=20'',
           req_params = NoBody\<rparr>])"
proof -
  let ?api = "demo_api [Inr ''page 1 of 2'', Inr ''page 2 of 2'']"
  let ?p1 = "demo_page 1 2 [demo_policy ''a'', demo_policy ''b'']"
  let ?p2 = "demo_page 2 2 [demo_policy ''c'']"
  have h1: "Page zero_ResultInfo < 1" and h2: "PerPage zero_ResultInfo < 1"
    by (simp_all add: zero_ResultInfo_def)
  have h3: "pagination_contract ?api"
    by (simp add: pagination_contract_def demo_api_def)
  have h4: "served ?api ''acct1'' (zero_ResultInfo\<lparr>PerPage := 20\<rparr>) [] ([?p1] @ [?p2])"
    by (simp add: demo_simps zero_ResultInfo_def)
  have h5: "\<forall>x \<in> set [?p1]. Page (ResultInfo x) < TotalPages (ResultInfo x)"
    by (simp add: demo_page_def)
  have h6: "\<not> Page (ResultInfo ?p2) < TotalPages (ResultInfo ?p2)"
    by (simp add: demo_page_def)
  from auto_pagination_aggregates [OF h1 h2 h3 h4 h5 h6, THEN conjunct1]
  show ?thesis
    by (simp add: demo_simps zero_ResultInfo_def)
qed

text \<open>The run of the scripted client over two pages, for the concrete instances below.\<close>

lemma demo_run_two_pages:
  "ListDeviceSettingsPolicies (demo_api [Inr ''page 1 of 2'', Inr ''page 2 of 2'']) ''acct1''
     zero_ResultInfo [] =
   Some (([demo_policy ''a'', demo_policy ''b'', demo_policy ''c''],
          Some \<lparr>Page = 2, PerPage = 20, Count = 1, TotalCount = 3, TotalPages = 2\<rparr>, None),
         [\<lparr>req_method = MethodGet,
           req_uri = ''/accounts/acct1/devices/policies?page=0&per_page=20'',
           req_params = NoBody\<rparr>,
          \<lparr>req_method = MethodGet,
           req_uri = ''/accounts/acct1/devices/policies?page=2&per_page=20'',
           req_params = NoBody\<rparr>])"
proof -
  let ?api = "demo_api [Inr ''page 1 of 2'', Inr ''page 2 of 2'']"
  let ?p1 = "demo_page 1 2 [demo_policy ''a'', demo_policy ''b'']"
  let ?p2 = "demo_page 2 2 [demo_policy ''c'']"
  have s: "served ?api ''acct1'' (zero_ResultInfo\<lparr>PerPage := 20\<rparr>) [] ([?p1] @ [?p2])"
    by (simp add: demo_simps zero_ResultInfo_def)
  have n: "\<forall>x \<in> set [?p1]. \<not> Done ?api (Next ?api (ResultInfo x))"
    by (simp add: demo_simps)
  have a: "[?p1] \<noteq> [] \<longrightarrow> True"
    by simp
  have "ListDeviceSettingsPolicies ?api ''acct1'' zero_ResultInfo [] =
      ListDeviceSettingsPolicies_loop ?api ''acct1'' True (zero_ResultInfo\<lparr>PerPage := 20\<rparr>) []
        zero_ResultInfo []"
    unfolding List_unfold by (simp add: zero_ResultInfo_def)
  also note loop_pages [OF s n a]
  finally show ?thesis
    by (simp add: demo_simps zero_ResultInfo_def)
qed

text \<open>
  C4. Whenever a fetch fails, the function returns at once with \<^verbatim>\<open>nil, nil, err\<close>. Let
  the pages \<open>rs\<close> have been fetched, none of them the last one (\<open>rs\<close> is empty in
  single-page mode), so that the history is \<open>sent_k\<close> and the next request is \<open>rq_k\<close>.
  If the transport fails on \<open>rq_k\<close> with \<open>e\<close>, the result is the empty list, no
  result-info and \<open>e\<close> itself; if the reply does not decode, with the decoder's error
  \<open>e\<close>, the result is the empty list, no result-info and \<open>e\<close> wrapped by
  \<^verbatim>\<open>fmt.Errorf("%s: %w", errUnmarshalError, e)\<close>, which unwraps to \<open>e\<close>. In both cases
  \<open>rq_k\<close> is the last request made, and the items of \<open>rs\<close> are not returned. Last,
  every return that carries an error carries the empty list and no result-info.
\<close>

theorem list_failure_returns_nil:
  assumes "served api accountID (if PerPage params < 1 then params\<lparr>PerPage := 20\<rparr> else params)
             sent rs"
    and "\<forall>x \<in> set rs. \<not> Done api (Next api (ResultInfo x))"
    and "rs \<noteq> [] \<longrightarrow> Page params < 1 \<and> PerPage params < 1"
    and "sent_k = sent @ requests_for api accountID
                    (if PerPage params < 1 then params\<lparr>PerPage := 20\<rparr> else params) rs"
    and "rq_k = list_request api accountID
                  (params_after api (if PerPage params < 1 then params\<lparr>PerPage := 20\<rparr> else params) rs)"
  shows "(makeRequestContext api sent_k rq_k = Inl e \<longrightarrow>
            ListDeviceSettingsPolicies api accountID params sent =
              Some (([], None, Some e), sent_k @ [rq_k]))
       \<and> (makeRequestContext api sent_k rq_k = Inr res \<and>
          Unmarshal_list api res zero_ListDeviceSettingsPoliciesResponse = (Some e, r) \<longrightarrow>
            ListDeviceSettingsPolicies api accountID params sent =
              Some (([], None, Some (Errorf_w (errUnmarshalError api) e)), sent_k @ [rq_k])
            \<and> Unwrap (Errorf_w (errUnmarshalError api) e) = Some e)
       \<and> (\<forall>ps ri e' sent'.
            ListDeviceSettingsPolicies api accountID params sent = Some ((ps, ri, Some e'), sent')
            \<longrightarrow> ps = [] \<and> ri = None)"
proof (intro conjI impI allI)
  let ?p = "if PerPage params < 1 then params\<lparr>PerPage := 20\<rparr> else params"
  let ?auto = "Page params < 1 \<and> PerPage params < 1"
  {
    fix e' assume f: "fetch_page api accountID (params_after api ?p rs) sent_k = Inl e'"
    have "ListDeviceSettingsPolicies api accountID params sent =
            Some (([], None, Some e'), sent_k @ [rq_k])"
      unfolding List_unfold assms(4,5)
      by (rule loop_fails_after [OF assms(1) assms(2) assms(3)])
         (use f in \<open>simp add: assms(4)\<close>)
  } note failing = this
  {
    assume "makeRequestContext api sent_k rq_k = Inl e"
    then have "fetch_page api accountID (params_after api ?p rs) sent_k = Inl e"
      by (simp add: fetch_page_def assms(5))
    then show "ListDeviceSettingsPolicies api accountID params sent =
                 Some (([], None, Some e), sent_k @ [rq_k])"
      by (rule failing)
  }
  {
    assume "makeRequestContext api sent_k rq_k = Inr res \<and>
            Unmarshal_list api res zero_ListDeviceSettingsPoliciesResponse = (Some e, r)"
    then have "fetch_page api accountID (params_after api ?p rs) sent_k =
                 Inl (Errorf_w (errUnmarshalError api) e)"
      by (simp add: fetch_page_def assms(5))
    then show "ListDeviceSettingsPolicies api accountID params sent =
                 Some (([], None, Some (Errorf_w (errUnmarshalError api) e)), sent_k @ [rq_k])"
      by (rule failing)
    show "Unwrap (Errorf_w (errUnmarshalError api) e) = Some e"
      by (simp add: Errorf_w_def)
  }
  {
    fix ps ri e' sent'
    assume run: "ListDeviceSettingsPolicies api accountID params sent = Some ((ps, ri, Some e'), sent')"
    from loop_outcome [OF run [unfolded List_unfold]]
    show "ps = []" and "ri = None"
      by auto
  }
qed

theorem list_failure_returns_nil_witness:
  "ListDeviceSettingsPolicies
     (demo_api [Inr ''page 1 of 2'', Inl (Failure ''connection reset by peer'')]) ''acct1''
     zero_ResultInfo [] =
   Some (([], None, Some (Failure ''connection reset by peer'')),
         [\<lparr>req_method = MethodGet,
           req_uri = ''/accounts/acct1/devices/policies?page=0&per_page=20'',
           req_params = NoBody\<rparr>,
          \<lparr>req_method = MethodGet,
           req_uri = ''/accounts/acct1/devices/policies?page=2&per_page=20'',
           req_params = NoBody\<rparr>])
   \<and> ListDeviceSettingsPolicies (demo_api [Inr ''page 1 of 2'', Inr ''<html>'']) ''acct1''
     zero_ResultInfo [] =
   Some (([], None,
          Some (WrapError ''error unmarshalling the JSON response: unexpected end of JSON input''
                  (Failure ''unexpected end of JSON input''))),
         [\<lparr>req_method = MethodGet,
           req_uri = ''/accounts/acct1/devices/policies?page=0&per_page=20'',
           req_params = NoBody\<rparr>,
          \<lparr>req_method = MethodGet,
           req_uri = ''/accounts/acct1/devices/policies?page=2&per_page=20'',
           req_params = NoBody\<rparr>])"
proof
  let ?p1 = "demo_page 1 2 [demo_policy ''a'', demo_policy ''b'']"
  let ?p = "if PerPage zero_ResultInfo < 1 then zero_ResultInfo\<lparr>PerPage := 20\<rparr> else zero_ResultInfo"
  have h3: "[?p1] \<noteq> [] \<longrightarrow> Page zero_ResultInfo < 1 \<and> PerPage zero_ResultInfo < 1"
    by (simp add: zero_ResultInfo_def)
  {
    let ?api = "demo_api [Inr ''page 1 of 2'', Inl (Failure ''connection reset by peer'')]"
    have h1: "served ?api ''acct1'' ?p [] [?p1]"
      by (simp add: demo_simps zero_ResultInfo_def)
    have h2: "\<forall>x \<in> set [?p1]. \<not> Done ?api (Next ?api (ResultInfo x))"
      by (simp add: demo_simps)
    from list_failure_returns_nil [OF h1 h2 h3 refl refl, THEN conjunct1,
        of "Failure ''connection reset by peer''"]
    show "ListDeviceSettingsPolicies ?api ''acct1'' zero_ResultInfo [] =
       Some (([], None, Some (Failure ''connection reset by peer'')),
         [\<lparr>req_method = MethodGet,
           req_uri = ''/accounts/acct1/devices/policies?page=0&per_page=20'',
           req_params = NoBody\<rparr>,
          \<lparr>req_method = MethodGet,
           req_uri = ''/accounts/acct1/devices/policies?page=2&per_page=20'',
           req_params = NoBody\<rparr>])"
      by (simp add: demo_simps zero_ResultInfo_def)
  }
  {
    let ?api = "demo_api [Inr ''page 1 of 2'', Inr ''<html>'']"
    have h1: "served ?api ''acct1'' ?p [] [?p1]"
      by (simp add: demo_simps zero_ResultInfo_def)
    have h2: "\<forall>x \<in> set [?p1]. \<not> Done ?api (Next ?api (ResultInfo x))"
      by (simp add: demo_simps)
    from list_failure_returns_nil [OF h1 h2 h3 refl refl, THEN conjunct2, THEN conjunct1,
        of "''<html>''" "Failure ''unexpected end of JSON input''"
           "zero_ListDeviceSettingsPoliciesResponse"]
    show "ListDeviceSettingsPolicies ?api ''acct1'' zero_ResultInfo [] =
       Some (([], None,
          Some (WrapError ''error unmarshalling the JSON response: unexpected end of JSON input''
                  (Failure ''unexpected end of JSON input''))),
         [\<lparr>req_method = MethodGet,
           req_uri = ''/accounts/acct1/devices/policies?page=0&per_page=20'',
           req_params = NoBody\<rparr>,
          \<lparr>req_method = MethodGet,
           req_uri = ''/accounts/acct1/devices/policies?page=2&per_page=20'',
           req_params = NoBody\<rparr>])"
      by (simp add: demo_simps zero_ResultInfo_def Errorf_w_def)
  }
qed

text \<open>
  C5. On every return without error, the result-info returned is the \<^verbatim>\<open>ResultInfo\<close>
  field of the response decoded from the reply to the last request of the run, as it
  was decoded.
\<close>

theorem result_info_is_last_page:
  assumes "ListDeviceSettingsPolicies api accountID params sent = Some ((ps, ri, None), sent')"
  shows "\<exists>h q res r. sent' = h @ [list_request api accountID q] \<and>
           makeRequestContext api h (list_request api accountID q) = Inr res \<and>
           Unmarshal_list api res zero_ListDeviceSettingsPoliciesResponse = (None, r) \<and>
           ri = Some (ResultInfo r)"
proof -
  from loop_outcome [OF assms [unfolded List_unfold]]
  obtain h q r where s: "sent' = h @ [list_request api accountID q]"
    and f: "fetch_page api accountID q h = Inr r" and ri: "ri = Some (ResultInfo r)"
    by auto
  from f obtain res where "makeRequestContext api h (list_request api accountID q) = Inr res"
    and "Unmarshal_list api res zero_ListDeviceSettingsPoliciesResponse = (None, r)"
    unfolding fetch_page_Inr by blast
  with s ri show ?thesis by blast
qed

theorem result_info_is_last_page_witness:
  "\<exists>h q res r.
     [\<lparr>req_method = MethodGet,
       req_uri = ''/accounts/acct1/devices/policies?page=0&per_page=20'',
       req_params = NoBody\<rparr>,
      \<lparr>req_method = MethodGet,
       req_uri = ''/accounts/acct1/devices/policies?page=2&per_page=20'',
       req_params = NoBody\<rparr>] =
       h @ [list_request (demo_api [Inr ''page 1 of 2'', Inr ''page 2 of 2'']) ''acct1'' q] \<and>
     makeRequestContext (demo_api [Inr ''page 1 of 2'', Inr ''page 2 of 2'']) h
       (list_request (demo_api [Inr ''page 1 of 2'', Inr ''page 2 of 2'']) ''acct1'' q) = Inr res \<and>
     Unmarshal_list (demo_api [Inr ''page 1 of 2'', Inr ''page 2 of 2'']) res
       zero_ListDeviceSettingsPoliciesResponse = (None, r) \<and>
     Some \<lparr>Page = 2, PerPage = 20, Count = 1, TotalCount = 3, TotalPages = 2\<rparr> =
       Some (ResultInfo r)"
  by (rule result_info_is_last_page [OF demo_run_two_pages])

text \<open>
  C6. For every account identifier and every \<open>per_page\<close> below \<open>1\<close> (\<open>0\<close>, \<open>-5\<close>),
  the call is the same computation as with \<open>per_page\<close> unset, which in Go is \<open>0\<close>: the
  loop starts with \<open>per_page = 20\<close>, so the first request sent is the one with
  \<open>per_page = 20\<close>. No error comes from the value of \<open>per_page\<close>: an error that is
  returned is the error of a failed fetch.
\<close>

theorem nonpositive_per_page_is_unset:
  assumes "n < 1"
  shows "ListDeviceSettingsPolicies api accountID (q\<lparr>PerPage := n\<rparr>) sent =
           ListDeviceSettingsPolicies api accountID (q\<lparr>PerPage := 0\<rparr>) sent
       \<and> ListDeviceSettingsPolicies api accountID (q\<lparr>PerPage := n\<rparr>) sent =
           ListDeviceSettingsPolicies_loop api accountID (Page q < 1) (q\<lparr>PerPage := 20\<rparr>) []
             zero_ResultInfo sent
       \<and> (\<forall>out sent'.
            ListDeviceSettingsPolicies api accountID (q\<lparr>PerPage := n\<rparr>) sent = Some (out, sent')
            \<longrightarrow> (\<exists>more. sent' = sent @ list_request api accountID (q\<lparr>PerPage := 20\<rparr>) # more)
              \<and> (\<forall>e. snd (snd out) = Some e \<longrightarrow>
                    (\<exists>h p. sent' = h @ [list_request api accountID p] \<and>
                           fetch_page api accountID p h = Inl e)))"
proof (intro conjI allI impI)
  have u: "ListDeviceSettingsPolicies api accountID (q\<lparr>PerPage := m\<rparr>) sent =
           ListDeviceSettingsPolicies_loop api accountID (Page q < 1) (q\<lparr>PerPage := 20\<rparr>) []
             zero_ResultInfo sent" if "m < 1" for m
    using that by (simp add: List_unfold)
  from assms show "ListDeviceSettingsPolicies api accountID (q\<lparr>PerPage := n\<rparr>) sent =
           ListDeviceSettingsPolicies api accountID (q\<lparr>PerPage := 0\<rparr>) sent"
    by (simp add: u)
  from assms show l: "ListDeviceSettingsPolicies api accountID (q\<lparr>PerPage := n\<rparr>) sent =
           ListDeviceSettingsPolicies_loop api accountID (Page q < 1) (q\<lparr>PerPage := 20\<rparr>) []
             zero_ResultInfo sent"
    by (rule u)
  fix out sent'
  assume "ListDeviceSettingsPolicies api accountID (q\<lparr>PerPage := n\<rparr>) sent = Some (out, sent')"
  with l have run: "ListDeviceSettingsPolicies_loop api accountID (Page q < 1) (q\<lparr>PerPage := 20\<rparr>) []
             zero_ResultInfo sent = Some (out, sent')"
    by simp
  from loop_sent_grows [OF run]
  show "\<exists>more. sent' = sent @ list_request api accountID (q\<lparr>PerPage := 20\<rparr>) # more" .
  fix e assume "snd (snd out) = Some e"
  with loop_outcome [OF run]
  show "\<exists>h p. sent' = h @ [list_request api accountID p] \<and> fetch_page api accountID p h = Inl e"
    by auto
qed

theorem nonpositive_per_page_is_unset_witness:
  "ListDeviceSettingsPolicies (demo_api [Inr ''page 1 of 2'', Inr ''page 2 of 2'']) ''acct1''
     (zero_ResultInfo\<lparr>PerPage := - 5\<rparr>) [] =
   Some (([demo_policy ''a'', demo_policy ''b'', demo_policy ''c''],
          Some \<lparr>Page = 2, PerPage = 20, Count = 1, TotalCount = 3, TotalPages = 2\<rparr>, None),
         [\<lparr>req_method = MethodGet,
           req_uri = ''/accounts/acct1/devices/policies?page=0&per_page=20'',
           req_params = NoBody\<rparr>,
          \<lparr>req_method = MethodGet,
           req_uri = ''/accounts/acct1/devices/policies?page=2&per_page=20'',
           req_params = NoBody\<rparr>])"
proof -
  have h: "(- 5 :: int) < 1" by simp
  have z: "zero_ResultInfo\<lparr>PerPage := 0\<rparr> = zero_ResultInfo"
    by (simp add: zero_ResultInfo_def)
  from nonpositive_per_page_is_unset [OF h, THEN conjunct1,
      of "demo_api [Inr ''page 1 of 2'', Inr ''page 2 of 2'']" "''acct1''" zero_ResultInfo "[]"]
  show ?thesis
    unfolding z demo_run_two_pages .
qed

text \<open>
  C7. In auto-pagination mode a page without items does not end the loop. Let the pages
  \<open>rs\<close> and then a page \<open>r\<close> with no items have been fetched: the function returns
  after \<open>r\<close> exactly when the cursor \<open>Next\<close> of \<open>r\<close>'s result-info is \<open>Done\<close>, and
  otherwise goes on with the loop, whose next request is the one built from that cursor.
\<close>

theorem empty_page_does_not_stop:
  assumes "Page params < 1" and "PerPage params < 1"
    and "served api accountID (params\<lparr>PerPage := 20\<rparr>) sent (rs @ [r])"
    and "\<forall>x \<in> set rs. \<not> Done api (Next api (ResultInfo x))"
    and "ListDeviceSettingsPoliciesResponse.Result r = []"
    and "sent_r = sent @ list_request api accountID (params\<lparr>PerPage := 20\<rparr>) #
                    map (\<lambda>x. list_request api accountID (Next api (ResultInfo x))) rs"
  shows "ListDeviceSettingsPolicies api accountID params sent =
          (if Done api (Next api (ResultInfo r))
           then Some ((concat (map ListDeviceSettingsPoliciesResponse.Result rs),
                       Some (ResultInfo r), None), sent_r)
           else ListDeviceSettingsPolicies_loop api accountID True (Next api (ResultInfo r))
                  (concat (map ListDeviceSettingsPoliciesResponse.Result rs)) (ResultInfo r) sent_r)
       \<and> (\<not> Done api (Next api (ResultInfo r)) \<longrightarrow>
            (\<forall>out sent'. ListDeviceSettingsPolicies api accountID params sent = Some (out, sent')
               \<longrightarrow> (\<exists>more. sent' =
                      sent_r @ list_request api accountID (Next api (ResultInfo r)) # more)))"
proof -
  have a: "rs \<noteq> [] \<longrightarrow> True" by simp
  have eq: "ListDeviceSettingsPolicies api accountID params sent =
          (if Done api (Next api (ResultInfo r))
           then Some ((concat (map ListDeviceSettingsPoliciesResponse.Result rs),
                       Some (ResultInfo r), None), sent_r)
           else ListDeviceSettingsPolicies_loop api accountID True (Next api (ResultInfo r))
                  (concat (map ListDeviceSettingsPoliciesResponse.Result rs)) (ResultInfo r) sent_r)"
    using assms(1,2,5,6) by (simp add: List_unfold loop_pages [OF assms(3) assms(4) a])
  moreover have "\<exists>more. sent' = sent_r @ list_request api accountID (Next api (ResultInfo r)) # more"
    if "\<not> Done api (Next api (ResultInfo r))"
      and "ListDeviceSettingsPolicies api accountID params sent = Some (out, sent')"
    for out sent'
    using that eq by (auto dest: loop_sent_grows)
  ultimately show ?thesis by blast
qed

theorem empty_page_does_not_stop_witness:
  "ListDeviceSettingsPolicies (demo_api [Inr ''empty page 1 of 2'', Inr ''page 2 of 2'']) ''acct1''
     zero_ResultInfo [] =
   Some (([demo_policy ''c''],
          Some \<lparr>Page = 2, PerPage = 20, Count = 1, TotalCount = 3, TotalPages = 2\<rparr>, None),
         [\<lparr>req_method = MethodGet,
           req_uri = ''/accounts/acct1/devices/policies?page=0&per_page=20'',
           req_params = NoBody\<rparr>,
          \<lparr>req_method = MethodGet,
           req_uri = ''/accounts/acct1/devices/policies?page=2&per_page=20'',
           req_params = NoBody\<rparr>])"
proof -
  let ?api = "demo_api [Inr ''empty page 1 of 2'', Inr ''page 2 of 2'']"
  let ?p1 = "demo_page 1 2 []"
  let ?p2 = "demo_page 2 2 [demo_policy ''c'']"
  let ?rq1 = "list_request ?api ''acct1'' (zero_ResultInfo\<lparr>PerPage := 20\<rparr>)"
  have h1: "Page zero_ResultInfo < 1" and h2: "PerPage zero_ResultInfo < 1"
    by (simp_all add: zero_ResultInfo_def)
  have h3: "served ?api ''acct1'' (zero_ResultInfo\<lparr>PerPage := 20\<rparr>) [] ([] @ [?p1])"
    by (simp add: demo_simps zero_ResultInfo_def)
  have h4: "\<forall>x \<in> set []. \<not> Done ?api (Next ?api (ResultInfo x))"
    by simp
  have h5: "ListDeviceSettingsPoliciesResponse.Result ?p1 = []"
    by (simp add: demo_page_def)
  have n: "\<not> Done ?api (Next ?api (ResultInfo ?p1))"
    by (simp add: demo_simps)
  have f: "fetch_page ?api ''acct1'' (Next ?api (ResultInfo ?p1)) [?rq1] = Inr ?p2"
    by (simp add: demo_simps zero_ResultInfo_def)
  have d: "Done ?api (Next ?api (ResultInfo ?p2))"
    by (simp add: demo_simps)
  from empty_page_does_not_stop [OF h1 h2 h3 h4 h5 refl, THEN conjunct1] n
  have "ListDeviceSettingsPolicies ?api ''acct1'' zero_ResultInfo [] =
      ListDeviceSettingsPolicies_loop ?api ''acct1'' True (Next ?api (ResultInfo ?p1)) []
        (ResultInfo ?p1) [?rq1]"
    by simp
  also note loop_fetched [OF f]
  finally show ?thesis
    using d by (simp add: demo_simps zero_ResultInfo_def)
qed



section \<open>Claims about the single-resource operations\<close>

lemma error_returnsI:
  assumes "\<And>err. makeRequestContext api sent rq = Inl err \<Longrightarrow>
             out = ((zero, Some err), sent @ [rq])"
    and "\<And>res err result. makeRequestContext api sent rq = Inr res \<Longrightarrow>
             unmarshal res zero = (Some err, result) \<Longrightarrow>
             out = ((result, Some (Errorf_w (errUnmarshalError api) err)), sent @ [rq])"
  shows "error_returns api unmarshal zero rq sent out"
  unfolding error_returns_def using assms by (auto simp: Errorf_w_def)

lemma UpdateDeviceClientCertificatesZone_errors:
  "error_returns api (Unmarshal_zone api) zero_DeviceClientCertificatesZone
     \<lparr>req_method = MethodPatch, req_uri = zone_uri api zoneID,
      req_params = EnabledBody \<lparr>Enabled.Enabled = enable\<rparr>\<rparr> sent
     (UpdateDeviceClientCertificatesZone api zoneID enable sent)"
  by (rule error_returnsI)
     (simp_all add: UpdateDeviceClientCertificatesZone_def zone_uri_def)

lemma GetDeviceClientCertificatesZone_errors:
  "error_returns api (Unmarshal_zone api) zero_DeviceClientCertificatesZone
     \<lparr>req_method = MethodGet, req_uri = zone_uri api zoneID, req_params = NoBody\<rparr> sent
     (GetDeviceClientCertificatesZone api zoneID sent)"
  by (rule error_returnsI)
     (simp_all add: GetDeviceClientCertificatesZone_def zone_uri_def)

lemma CreateDeviceSettingsPolicy_errors:
  "error_returns api (Unmarshal_policy api) zero_DeviceSettingsPolicyResponse
     \<lparr>req_method = MethodPost, req_uri = policy_uri api accountID, req_params = PolicyBody req\<rparr>
     sent (CreateDeviceSettingsPolicy api accountID req sent)"
  by (rule error_returnsI)
     (simp_all add: CreateDeviceSettingsPolicy_def policy_uri_def)

lemma UpdateDefaultDeviceSettingsPolicy_errors:
  "error_returns api (Unmarshal_policy api) zero_DeviceSettingsPolicyResponse
     \<lparr>req_method = MethodPatch, req_uri = policy_uri api accountID, req_params = PolicyBody req\<rparr>
     sent (UpdateDefaultDeviceSettingsPolicy api accountID req sent)"
  by (rule error_returnsI)
     (simp_all add: UpdateDefaultDeviceSettingsPolicy_def policy_uri_def)

lemma UpdateDeviceSettingsPolicy_errors:
  "error_returns api (Unmarshal_policy api) zero_DeviceSettingsPolicyResponse
     \<lparr>req_method = MethodPatch, req_uri = policy_id_uri api accountID policyID,
      req_params = PolicyBody req\<rparr>
     sent (UpdateDeviceSettingsPolicy api accountID policyID req sent)"
  by (rule error_returnsI)
     (simp_all add: UpdateDeviceSettingsPolicy_def policy_id_uri_def)

lemma DeleteDeviceSettingsPolicy_errors:
  "error_returns api (Unmarshal_delete api) zero_DeleteDeviceSettingsPolicyResponse
     \<lparr>req_method = MethodDelete, req_uri = policy_id_uri api accountID policyID,
      req_params = NoBody\<rparr>
     sent (DeleteDeviceSettingsPolicy api accountID policyID sent)"
  by (rule error_returnsI)
     (simp_all add: DeleteDeviceSettingsPolicy_def policy_id_uri_def)

lemma GetDefaultDeviceSettingsPolicy_errors:
  "error_returns api (Unmarshal_policy api) zero_DeviceSettingsPolicyResponse
     \<lparr>req_method = MethodGet, req_uri = policy_uri api accountID, req_params = NoBody\<rparr>
     sent (GetDefaultDeviceSettingsPolicy api accountID sent)"
  by (rule error_returnsI)
     (simp_all add: GetDefaultDeviceSettingsPolicy_def policy_uri_def)

lemma GetDeviceSettingsPolicy_errors:
  "error_returns api (Unmarshal_policy api) zero_DeviceSettingsPolicyResponse
     \<lparr>req_method = MethodGet, req_uri = policy_id_uri api accountID policyID,
      req_params = NoBody\<rparr>
     sent (GetDeviceSettingsPolicy api accountID policyID sent)"
  by (rule error_returnsI)
     (simp_all add: GetDeviceSettingsPolicy_def policy_id_uri_def)

text \<open>
  C10, as the claim states it, fails where the decoder has written into \<^verbatim>\<open>result\<close>
  before it fails, as Go's JSON decoders do when a later field of the body has the wrong
  type: the operations return \<^verbatim>\<open>result\<close>, not a fresh zero value. Here the reply
  carries \<^verbatim>\<open>success: true\<close> and a number where the \<^verbatim>\<open>result\<close> object should be; the
  decoder sets \<^verbatim>\<open>Success\<close> and then fails, and the value returned with the wrapped error
  is not the zero value.
\<close>

theorem decode_failure_result_not_zero:
  "GetDeviceClientCertificatesZone (demo_api [Inr ''{success: true, result: 7}'']) ''zone1'' [] =
     ((\<lparr>DeviceClientCertificatesZone.Response = \<lparr>Success = True, Errors = []\<rparr>,
        DeviceClientCertificatesZone.Result = \<lparr>Enabled.Enabled = False\<rparr>\<rparr>,
       Some (WrapError
         ''error unmarshalling the JSON response: json: cannot unmarshal number into Go value of type Enabled''
         (Failure ''json: cannot unmarshal number into Go value of type Enabled''))),
      [\<lparr>req_method = MethodGet, req_uri = ''/zones/zone1/devices/policy/certificates'',
        req_params = NoBody\<rparr>])
   \<and> \<lparr>DeviceClientCertificatesZone.Response = \<lparr>Success = True, Errors = []\<rparr>,
      DeviceClientCertificatesZone.Result = \<lparr>Enabled.Enabled = False\<rparr>\<rparr>
     \<noteq> zero_DeviceClientCertificatesZone"
  by (simp add: GetDeviceClientCertificatesZone_def demo_api_def Errorf_w_def
      zero_DeviceClientCertificatesZone_def zero_Response_def)

text \<open>
  C10, amended. For each of the eight single-resource operations: when the transport
  fails, the operation returns the zero value of its result type with the transport's
  error unchanged; when the decoder fails, it returns the result variable as the decoder
  left it (the zero value if the decoder wrote nothing) with the decoder's error wrapped
  by \<^verbatim>\<open>fmt.Errorf("%s: %w", errUnmarshalError, err)\<close>. Both are ordinary return values,
  and the request has been sent exactly once.
\<close>

theorem single_resource_error_returns:
  "error_returns api (Unmarshal_zone api) zero_DeviceClientCertificatesZone
     \<lparr>req_method = MethodPatch, req_uri = zone_uri api zoneID,
      req_params = EnabledBody \<lparr>Enabled.Enabled = enable\<rparr>\<rparr> sent
     (UpdateDeviceClientCertificatesZone api zoneID enable sent)
   \<and> error_returns api (Unmarshal_zone api) zero_DeviceClientCertificatesZone
     \<lparr>req_method = MethodGet, req_uri = zone_uri api zoneID, req_params = NoBody\<rparr> sent
     (GetDeviceClientCertificatesZone api zoneID sent)
   \<and> error_returns api (Unmarshal_policy api) zero_DeviceSettingsPolicyResponse
     \<lparr>req_method = MethodPost, req_uri = policy_uri api accountID, req_params = PolicyBody req\<rparr>
     sent (CreateDeviceSettingsPolicy api accountID req sent)
   \<and> error_returns api (Unmarshal_policy api) zero_DeviceSettingsPolicyResponse
     \<lparr>req_method = MethodPatch, req_uri = policy_uri api accountID, req_params = PolicyBody req\<rparr>
     sent (UpdateDefaultDeviceSettingsPolicy api accountID req sent)
   \<and> error_returns api (Unmarshal_policy api) zero_DeviceSettingsPolicyResponse
     \<lparr>req_method = MethodPatch, req_uri = policy_id_uri api accountID policyID,
      req_params = PolicyBody req\<rparr>
     sent (UpdateDeviceSettingsPolicy api accountID policyID req sent)
   \<and> error_returns api (Unmarshal_delete api) zero_DeleteDeviceSettingsPolicyResponse
     \<lparr>req_method = MethodDelete, req_uri = policy_id_uri api accountID policyID,
      req_params = NoBody\<rparr>
     sent (DeleteDeviceSettingsPolicy api accountID policyID sent)
   \<and> error_returns api (Unmarshal_policy api) zero_DeviceSettingsPolicyResponse
     \<lparr>req_method = MethodGet, req_uri = policy_uri api accountID, req_params = NoBody\<rparr>
     sent (GetDefaultDeviceSettingsPolicy api accountID sent)
   \<and> error_returns api (Unmarshal_policy api) zero_DeviceSettingsPolicyResponse
     \<lparr>req_method = MethodGet, req_uri = policy_id_uri api accountID policyID,
      req_params = NoBody\<rparr>
     sent (GetDeviceSettingsPolicy api accountID policyID sent)"
  by (intro conjI UpdateDeviceClientCertificatesZone_errors GetDeviceClientCertificatesZone_errors
      CreateDeviceSettingsPolicy_errors UpdateDefaultDeviceSettingsPolicy_errors
      UpdateDeviceSettingsPolicy_errors DeleteDeviceSettingsPolicy_errors
      GetDefaultDeviceSettingsPolicy_errors GetDeviceSettingsPolicy_errors)

theorem single_resource_error_returns_witness:
  "GetDeviceClientCertificatesZone (demo_api [Inl (Failure ''context deadline exceeded'')])
     ''zone1'' [] =
     ((zero_DeviceClientCertificatesZone, Some (Failure ''context deadline exceeded'')),
      [\<lparr>req_method = MethodGet, req_uri = ''/zones/zone1/devices/policy/certificates'',
        req_params = NoBody\<rparr>])
   \<and> DeleteDeviceSettingsPolicy (demo_api [Inr ''<html>'']) ''acct1'' ''p1'' [] =
     ((zero_DeleteDeviceSettingsPolicyResponse,
       Some (WrapError ''error unmarshalling the JSON response: unexpected end of JSON input''
               (Failure ''unexpected end of JSON input''))),
      [\<lparr>req_method = MethodDelete, req_uri = ''/accounts/acct1/devices/policy/p1'',
        req_params = NoBody\<rparr>])"
proof
  let ?api = "demo_api [Inl (Failure ''context deadline exceeded'')]"
  let ?rq = "\<lparr>req_method = MethodGet, req_uri = zone_uri ?api ''zone1'', req_params = NoBody\<rparr>"
  have t: "makeRequestContext ?api [] ?rq = Inl (Failure ''context deadline exceeded'')"
    by (simp add: demo_api_def)
  from single_resource_error_returns [of ?api "''zone1''" _ "[]", THEN conjunct2, THEN conjunct1,
      unfolded error_returns_def, THEN conjunct1, rule_format, OF t]
  show "GetDeviceClientCertificatesZone ?api ''zone1'' [] =
     ((zero_DeviceClientCertificatesZone, Some (Failure ''context deadline exceeded'')),
      [\<lparr>req_method = MethodGet, req_uri = ''/zones/zone1/devices/policy/certificates'',
        req_params = NoBody\<rparr>])"
    by (simp add: zone_uri_def demo_api_def)
next
  let ?api = "demo_api [Inr ''<html>'']"
  let ?rq = "\<lparr>req_method = MethodDelete, req_uri = policy_id_uri ?api ''acct1'' ''p1'',
              req_params = NoBody\<rparr>"
  have t: "makeRequestContext ?api [] ?rq = Inr ''<html>'' \<and>
           Unmarshal_delete ?api ''<html>'' zero_DeleteDeviceSettingsPolicyResponse =
             (Some (Failure ''unexpected end of JSON input''), zero_DeleteDeviceSettingsPolicyResponse)"
    by (simp add: demo_api_def)
  from single_resource_error_returns [of ?api _ _ "[]" "''acct1''" _ "''p1''",
      THEN conjunct2, THEN conjunct2, THEN conjunct2, THEN conjunct2, THEN conjunct2,
      THEN conjunct1, unfolded error_returns_def, THEN conjunct2, rule_format, OF t,
      THEN conjunct1]
  show "DeleteDeviceSettingsPolicy ?api ''acct1'' ''p1'' [] =
     ((zero_DeleteDeviceSettingsPolicyResponse,
       Some (WrapError ''error unmarshalling the JSON response: unexpected end of JSON input''
               (Failure ''unexpected end of JSON input''))),
      [\<lparr>req_method = MethodDelete, req_uri = ''/accounts/acct1/devices/policy/p1'',
        req_params = NoBody\<rparr>])"
    by (simp add: policy_id_uri_def demo_api_def Errorf_w_def)
qed

section \<open>Claims about the JSON form\<close>

text \<open>
  C3. The claim is that a request with only \<^verbatim>\<open>name\<close> and \<^verbatim>\<open>enabled\<close> set is encoded
  with no other member. Fourteen of the fifteen fields of
  \<^verbatim>\<open>DeviceSettingsPolicyRequest\<close> are tagged \<^verbatim>\<open>omitempty\<close>, and for them the claim
  holds; \<^verbatim>\<open>ExcludeOfficeIps\<close> is tagged \<^verbatim>\<open>json:"exclude_office_ips"\<close> without it. So
  the body of such a request has a third member, \<^verbatim>\<open>"exclude_office_ips": null\<close>,
  whether \<^verbatim>\<open>enabled\<close> is true or false, and the request with no field set is not
  encoded as the empty object.
\<close>

theorem request_name_enabled_also_sends_exclude_office_ips:
  "marshal_DeviceSettingsPolicyRequest
     (zero_DeviceSettingsPolicyRequest
        \<lparr>DeviceSettingsPolicyRequest.Name := Some ''laptops'',
         DeviceSettingsPolicyRequest.Enabled := Some True\<rparr>) =
   JObject [(''name'', JString ''laptops''), (''enabled'', JBool True),
            (''exclude_office_ips'', JNull)]
   \<and> marshal_DeviceSettingsPolicyRequest
     (zero_DeviceSettingsPolicyRequest
        \<lparr>DeviceSettingsPolicyRequest.Name := Some ''laptops'',
         DeviceSettingsPolicyRequest.Enabled := Some False\<rparr>) =
   JObject [(''name'', JString ''laptops''), (''enabled'', JBool False),
            (''exclude_office_ips'', JNull)]
   \<and> marshal_DeviceSettingsPolicyRequest zero_DeviceSettingsPolicyRequest =
   JObject [(''exclude_office_ips'', JNull)]"
  by (simp add: marshal_DeviceSettingsPolicyRequest_def zero_DeviceSettingsPolicyRequest_def
      field_def field_omitempty_def marshal_ptr_def)

subsection \<open>Decoding a policy and encoding it again\<close>

text \<open>
  What the decoder has stored for one member of an object whose names are all
  different: the members before it have left the field as it was at the start, the
  member itself determines it, and the members after it leave it alone.
\<close>

lemma unmarshal_fields_append:
  "unmarshal_fields step (a @ b) x =
   (case unmarshal_fields step a x of Inl e \<Rightarrow> Inl e | Inr y \<Rightarrow> unmarshal_fields step b y)"
  by (induction a arbitrary: x) (auto split: sum.splits)

lemma unmarshal_fields_keep:
  assumes "unmarshal_fields step kvs x = Inr x'"
    and "n \<notin> fst ` set kvs"
    and other: "\<And>k u y y'. k \<noteq> n \<Longrightarrow> step k u y = Inr y' \<Longrightarrow> f y' = f y"
  shows "f x' = f x"
  using assms(1,2)
proof (induction kvs arbitrary: x)
  case Nil
  then show ?case by simp
next
  case (Cons a kvs)
  obtain k u where a: "a = (k, u)" by (cases a)
  from Cons.prems a obtain y where "step k u x = Inr y" "unmarshal_fields step kvs y = Inr x'"
    and "k \<noteq> n" "n \<notin> fst ` set kvs"
    by (auto split: sum.splits)
  with Cons.IH [of y] other [of k u x y] show ?case by simp
qed

lemma unmarshal_fields_get:
  assumes run: "unmarshal_fields step kvs x = Inr x'"
    and dist: "distinct (map fst kvs)"
    and mem: "(n, v) \<in> set kvs"
    and other: "\<And>k u y y'. k \<noteq> n \<Longrightarrow> step k u y = Inr y' \<Longrightarrow> f y' = f y"
    and same: "\<And>y y'. f y = f x \<Longrightarrow> step n v y = Inr y' \<Longrightarrow> Q (f y')"
  shows "Q (f x')"
proof -
  from mem obtain pre post where kvs: "kvs = pre @ (n, v) # post"
    by (auto dest: split_list)
  from dist kvs have npre: "n \<notin> fst ` set pre" and npost: "n \<notin> fst ` set post"
    by auto
  from run kvs obtain y1 y2 where r1: "unmarshal_fields step pre x = Inr y1"
    and r2: "step n v y1 = Inr y2" and r3: "unmarshal_fields step post y2 = Inr x'"
    by (auto simp: unmarshal_fields_append split: sum.splits)
  have "f y1 = f x"
    by (rule unmarshal_fields_keep [OF r1 npre]) (rule other)
  from same [OF this r2] have "Q (f y2)" .
  moreover have "f x' = f y2"
    by (rule unmarshal_fields_keep [OF r3 npost]) (rule other)
  ultimately show ?thesis by simp
qed

lemma store_Inr: "store d upd = Inr y \<longleftrightarrow> (\<exists>x. d = Inr x \<and> y = upd x)"
  by (cases d) (auto simp: store_def)

lemma wrap_int64_fits:
  assumes "int_fits n"
  shows "wrap_int64 n = n"
proof -
  have p: "(2::int) ^ 64 = 2 ^ 63 + 2 ^ 63" by simp
  from assms have "0 \<le> n + 2 ^ 63" and "n + 2 ^ 63 < 2 ^ 64"
    unfolding p int_fits_def by linarith+
  then have m: "(n + 2 ^ 63) mod 2 ^ 64 = n + 2 ^ 63"
    by (rule mod_pos_pos_trivial)
  show ?thesis
    unfolding wrap_int64_def m by simp
qed

lemma int_fits_digits: "int_fits n \<Longrightarrow> \<bar>n\<bar> < 10 ^ 19"
  unfolding int_fits_def by simp linarith

lemma unmarshal_int_fits: "int_fits n \<Longrightarrow> unmarshal_int n = Inr n"
  unfolding unmarshal_int_def by (simp only: wrap_int64_fits int_fits_digits if_True)

lemma same_json_refl: "same_json v v"
  by (cases v) simp_all

lemma bool_ptr_round_trip: "unmarshal_bool_ptr v = Inr x \<Longrightarrow> marshal_ptr JBool x = v"
  by (cases v) (auto simp: marshal_ptr_def)

lemma int_ptr_round_trip:
  "unmarshal_int_ptr v = Inr x \<Longrightarrow> \<forall>n. v = JNumber n \<longrightarrow> int_fits n \<Longrightarrow>
   marshal_ptr JNumber x = v"
  by (cases v) (auto simp: marshal_ptr_def store_Inr unmarshal_int_fits)

lemma string_ptr_round_trip: "unmarshal_string_ptr v = Inr x \<Longrightarrow> marshal_ptr JString x = v"
  by (cases v) (auto simp: marshal_ptr_def)

lemma bool_round_trip: "unmarshal_bool v cur = Inr b \<Longrightarrow> v \<noteq> JNull \<Longrightarrow> JBool b = v"
  by (cases v) auto

lemma elements_round_trip:
  "unmarshal_elements dec js = Inr xs \<Longrightarrow> \<forall>e \<in> set js. \<forall>x. dec e = Inr x \<longrightarrow> enc x = e \<Longrightarrow>
   map enc xs = js"
  by (induction js arbitrary: xs) (auto split: sum.splits)

lemma slice_ptr_round_trip:
  "unmarshal_slice_ptr dec v = Inr x \<Longrightarrow>
   \<forall>e \<in> set (elements v). \<forall>y. dec e = Inr y \<longrightarrow> enc y = e \<Longrightarrow>
   marshal_ptr (\<lambda>xs. JArray (map enc xs)) x = v"
  by (cases v) (auto simp: marshal_ptr_def elements_round_trip split: sum.splits)

lemma ServiceModeV2_other_mode:
  "k \<noteq> ''mode'' \<Longrightarrow> ServiceModeV2_field k u y = Inr y' \<Longrightarrow> Mode y' = Mode y"
  by (auto simp: ServiceModeV2_field_def store_Inr split: if_splits json.splits)

lemma ServiceModeV2_other_port:
  "k \<noteq> ''port'' \<Longrightarrow> ServiceModeV2_field k u y = Inr y' \<Longrightarrow> Port y' = Port y"
  by (auto simp: ServiceModeV2_field_def store_Inr split: if_splits json.splits)

lemma kept_member_cases:
  assumes "kept_member (k, u)"
  obtains m where "k = ''mode''" "u = JString m" "m \<noteq> []"
    | n where "k = ''port''" "u = JNumber n" "n \<noteq> 0" "int_fits n"
  using assms by (cases u) auto

lemma ServiceModeV2_members:
  assumes run: "unmarshal_fields ServiceModeV2_field ms \<lparr>Mode = [], Port = 0\<rparr> = Inr s"
    and dist: "distinct (map fst ms)"
    and kept: "list_all kept_member ms"
  shows "set (members (marshal_ServiceModeV2 s)) = set ms"
proof -
  have mode_in: "Mode s = m" if "(''mode'', JString m) \<in> set ms" for m
  proof (rule unmarshal_fields_get [where f = Mode and Q = "\<lambda>w. w = m", OF run dist that])
    show "Mode y' = Mode y" if "k \<noteq> ''mode''" "ServiceModeV2_field k u y = Inr y'" for k u y y'
      using that by (rule ServiceModeV2_other_mode)
    show "Mode y' = m" if "ServiceModeV2_field ''mode'' (JString m) y = Inr y'" for y y'
      using that by (auto simp: ServiceModeV2_field_def)
  qed
  have port_in: "Port s = n" if "(''port'', JNumber n) \<in> set ms" "int_fits n" for n
  proof (rule unmarshal_fields_get [where f = Port and Q = "\<lambda>w. w = n", OF run dist that(1)])
    show "Port y' = Port y" if "k \<noteq> ''port''" "ServiceModeV2_field k u y = Inr y'" for k u y y'
      using that by (rule ServiceModeV2_other_port)
    show "Port y' = n" if "ServiceModeV2_field ''port'' (JNumber n) y = Inr y'" for y y'
      using that \<open>int_fits n\<close>
      by (auto simp: ServiceModeV2_field_def store_Inr unmarshal_int_fits)
  qed
  have "Mode s = Mode \<lparr>Mode = [], Port = 0\<rparr>" if "''mode'' \<notin> fst ` set ms"
    by (rule unmarshal_fields_keep [OF run that]) (rule ServiceModeV2_other_mode)
  then have mode_out: "Mode s = []" if "''mode'' \<notin> fst ` set ms"
    using that by simp
  have "Port s = Port \<lparr>Mode = [], Port = 0\<rparr>" if "''port'' \<notin> fst ` set ms"
    by (rule unmarshal_fields_keep [OF run that]) (rule ServiceModeV2_other_port)
  then have port_out: "Port s = 0" if "''port'' \<notin> fst ` set ms"
    using that by simp
  have sub: "kv \<in> set (members (marshal_ServiceModeV2 s))" if kv: "kv \<in> set ms" for kv
  proof -
    obtain k u where e: "kv = (k, u)" by (cases kv)
    from kept kv e have "kept_member (k, u)" by (auto simp: list_all_iff)
    then show ?thesis
    proof (cases rule: kept_member_cases)
      case (1 m)
      with kv e mode_in [of m] show ?thesis by (simp add: marshal_ServiceModeV2_def)
    next
      case (2 n)
      with kv e port_in [of n] show ?thesis by (simp add: marshal_ServiceModeV2_def)
    qed
  qed
  have sup: "kv \<in> set ms" if kv: "kv \<in> set (members (marshal_ServiceModeV2 s))" for kv
  proof -
    from kv consider "Mode s \<noteq> []" "kv = (''mode'', JString (Mode s))"
      | "Port s \<noteq> 0" "kv = (''port'', JNumber (Port s))"
      by (auto simp: marshal_ServiceModeV2_def split: if_splits)
    then show ?thesis
    proof cases
      case 1
      with mode_out obtain u where u: "(''mode'', u) \<in> set ms" by force
      with kept have "kept_member (''mode'', u)" by (auto simp: list_all_iff)
      then obtain m where "u = JString m" by (cases rule: kept_member_cases) auto
      with u mode_in [of m] 1 show ?thesis by simp
    next
      case 2
      with port_out obtain u where u: "(''port'', u) \<in> set ms" by force
      with kept have "kept_member (''port'', u)" by (auto simp: list_all_iff)
      then obtain n where "u = JNumber n" "int_fits n" by (cases rule: kept_member_cases) auto
      with u port_in [of n] 2 show ?thesis by simp
    qed
  qed
  from sub sup show ?thesis by blast
qed

lemma ServiceModeV2_ptr_round_trip:
  assumes "unmarshal_ServiceModeV2_ptr v None = Inr x" and "v = JNull \<or> kept_ServiceModeV2 v"
  shows "same_json v (marshal_ptr marshal_ServiceModeV2 x)"
proof (cases "v = JNull")
  case True
  with assms(1) show ?thesis
    by (simp add: unmarshal_ServiceModeV2_ptr_def marshal_ptr_def)
next
  case False
  with assms(2) obtain ms where v: "v = JObject ms" and d: "distinct (map fst ms)"
    and k: "list_all kept_member ms"
    by (cases v) auto
  from assms(1) v obtain s where x: "x = Some s"
    and run: "unmarshal_fields ServiceModeV2_field ms \<lparr>Mode = [], Port = 0\<rparr> = Inr s"
    by (auto simp: unmarshal_ServiceModeV2_ptr_def store_Inr)
  from ServiceModeV2_members [OF run d k] have "set (members (marshal_ServiceModeV2 s)) = set ms" .
  then show ?thesis
    unfolding v x by (auto simp: marshal_ptr_def marshal_ServiceModeV2_def)
qed

lemma other_service_mode_v2:
  "k \<noteq> ''service_mode_v2'' \<Longrightarrow> DeviceSettingsPolicy_field decF decS k u y = Inr y' \<Longrightarrow>
   DeviceSettingsPolicy.ServiceModeV2 y' = DeviceSettingsPolicy.ServiceModeV2 y"
  by (auto simp: DeviceSettingsPolicy_field_def store_Inr split: if_splits)

lemma preserved_service_mode_v2:
  assumes "unmarshal_fields (DeviceSettingsPolicy_field decF decS) kvs zero_DeviceSettingsPolicy = Inr p"
    and "distinct (map fst kvs)"
    and "(''service_mode_v2'', v) \<in> set kvs"
    and "v = JNull \<or> kept_ServiceModeV2 v"
  shows "\<exists>v'. map_of (members (marshal_DeviceSettingsPolicy encF encS p)) ''service_mode_v2'' = Some v' \<and> same_json v v'"
proof -
  have "(\<lambda>w. same_json v (marshal_ptr marshal_ServiceModeV2 w)) (DeviceSettingsPolicy.ServiceModeV2 p)"
  proof (rule unmarshal_fields_get [where f = "DeviceSettingsPolicy.ServiceModeV2" and Q = "\<lambda>w. same_json v (marshal_ptr marshal_ServiceModeV2 w)", OF assms(1-3)])
    show "DeviceSettingsPolicy.ServiceModeV2 y' = DeviceSettingsPolicy.ServiceModeV2 y"
      if "k \<noteq> ''service_mode_v2''" and "DeviceSettingsPolicy_field decF decS k u y = Inr y'" for k u y y'
      using that by (rule other_service_mode_v2)
    show "(\<lambda>w. same_json v (marshal_ptr marshal_ServiceModeV2 w)) (DeviceSettingsPolicy.ServiceModeV2 y')"
      if "DeviceSettingsPolicy.ServiceModeV2 y = DeviceSettingsPolicy.ServiceModeV2 zero_DeviceSettingsPolicy"
        and "DeviceSettingsPolicy_field decF decS ''service_mode_v2'' v y = Inr y'" for y y'
    proof -
      from that(2) obtain x where d: "unmarshal_ServiceModeV2_ptr v (DeviceSettingsPolicy.ServiceModeV2 y) = Inr x"
        and y': "y' = y\<lparr>DeviceSettingsPolicy.ServiceModeV2 := x\<rparr>"
        by (auto simp: DeviceSettingsPolicy_field_def store_Inr)
      from that(1) have "DeviceSettingsPolicy.ServiceModeV2 y = None" by (simp add: zero_DeviceSettingsPolicy_def)
      with d have "unmarshal_ServiceModeV2_ptr v None = Inr x" by simp
      from ServiceModeV2_ptr_round_trip [OF this assms(4)] show ?thesis by (simp add: y')
    qed
  qed
  then show ?thesis
    by (simp add: marshal_DeviceSettingsPolicy_def field_def)
qed

lemma other_disable_auto_fallback:
  "k \<noteq> ''disable_auto_fallback'' \<Longrightarrow> DeviceSettingsPolicy_field decF decS k u y = Inr y' \<Longrightarrow>
   DeviceSettingsPolicy.DisableAutoFallback y' = DeviceSettingsPolicy.DisableAutoFallback y"
  by (auto simp: DeviceSettingsPolicy_field_def store_Inr split: if_splits)

lemma preserved_disable_auto_fallback:
  assumes "unmarshal_fields (DeviceSettingsPolicy_field decF decS) kvs zero_DeviceSettingsPolicy = Inr p"
    and "distinct (map fst kvs)"
    and "(''disable_auto_fallback'', v) \<in> set kvs"
  shows "map_of (members (marshal_DeviceSettingsPolicy encF encS p)) ''disable_auto_fallback'' = Some v"
proof -
  have "(\<lambda>w. marshal_ptr JBool w = v) (DeviceSettingsPolicy.DisableAutoFallback p)"
  proof (rule unmarshal_fields_get [where f = "DeviceSettingsPolicy.DisableAutoFallback" and Q = "\<lambda>w. marshal_ptr JBool w = v", OF assms(1-3)])
    show "DeviceSettingsPolicy.DisableAutoFallback y' = DeviceSettingsPolicy.DisableAutoFallback y"
      if "k \<noteq> ''disable_auto_fallback''" and "DeviceSettingsPolicy_field decF decS k u y = Inr y'" for k u y y'
      using that by (rule other_disable_auto_fallback)
    show "(\<lambda>w. marshal_ptr JBool w = v) (DeviceSettingsPolicy.DisableAutoFallback y')"
      if "DeviceSettingsPolicy.DisableAutoFallback y = DeviceSettingsPolicy.DisableAutoFallback zero_DeviceSettingsPolicy"
        and "DeviceSettingsPolicy_field decF decS ''disable_auto_fallback'' v y = Inr y'" for y y'
    proof -
      from that(2) obtain x where d: "unmarshal_bool_ptr v = Inr x"
        and y': "y' = y\<lparr>DeviceSettingsPolicy.DisableAutoFallback := x\<rparr>"
        by (auto simp: DeviceSettingsPolicy_field_def store_Inr)
      from bool_ptr_round_trip [OF d] show ?thesis by (simp add: y')
    qed
  qed
  then show ?thesis
    by (simp add: marshal_DeviceSettingsPolicy_def field_def)
qed

lemma other_fallback_domains:
  "k \<noteq> ''fallback_domains'' \<Longrightarrow> DeviceSettingsPolicy_field decF decS k u y = Inr y' \<Longrightarrow>
   DeviceSettingsPolicy.FallbackDomains y' = DeviceSettingsPolicy.FallbackDomains y"
  by (auto simp: DeviceSettingsPolicy_field_def store_Inr split: if_splits)

lemma preserved_fallback_domains:
  assumes "unmarshal_fields (DeviceSettingsPolicy_field decF decS) kvs zero_DeviceSettingsPolicy = Inr p"
    and "distinct (map fst kvs)"
    and "(''fallback_domains'', v) \<in> set kvs"
    and "\<forall>e \<in> set (elements v). \<forall>x. decF e = Inr x \<longrightarrow> encF x = e"
  shows "map_of (members (marshal_DeviceSettingsPolicy encF encS p)) ''fallback_domains'' = Some v"
proof -
  have "(\<lambda>w. marshal_ptr (\<lambda>xs. JArray (map encF xs)) w = v) (DeviceSettingsPolicy.FallbackDomains p)"
  proof (rule unmarshal_fields_get [where f = "DeviceSettingsPolicy.FallbackDomains" and Q = "\<lambda>w. marshal_ptr (\<lambda>xs. JArray (map encF xs)) w = v", OF assms(1-3)])
    show "DeviceSettingsPolicy.FallbackDomains y' = DeviceSettingsPolicy.FallbackDomains y"
      if "k \<noteq> ''fallback_domains''" and "DeviceSettingsPolicy_field decF decS k u y = Inr y'" for k u y y'
      using that by (rule other_fallback_domains)
    show "(\<lambda>w. marshal_ptr (\<lambda>xs. JArray (map encF xs)) w = v) (DeviceSettingsPolicy.FallbackDomains y')"
      if "DeviceSettingsPolicy.FallbackDomains y = DeviceSettingsPolicy.FallbackDomains zero_DeviceSettingsPolicy"
        and "DeviceSettingsPolicy_field decF decS ''fallback_domains'' v y = Inr y'" for y y'
    proof -
      from that(2) obtain x where d: "unmarshal_slice_ptr decF v = Inr x"
        and y': "y' = y\<lparr>DeviceSettingsPolicy.FallbackDomains := x\<rparr>"
        by (auto simp: DeviceSettingsPolicy_field_def store_Inr)
      from slice_ptr_round_trip [OF d assms(4)] show ?thesis by (simp add: y')
    qed
  qed
  then show ?thesis
    by (simp add: marshal_DeviceSettingsPolicy_def field_def)
qed

lemma other_include:
  "k \<noteq> ''include'' \<Longrightarrow> DeviceSettingsPolicy_field decF decS k u y = Inr y' \<Longrightarrow>
   DeviceSettingsPolicy.Include y' = DeviceSettingsPolicy.Include y"
  by (auto simp: DeviceSettingsPolicy_field_def store_Inr split: if_splits)

lemma preserved_include:
  assumes "unmarshal_fields (DeviceSettingsPolicy_field decF decS) kvs zero_DeviceSettingsPolicy = Inr p"
    and "distinct (map fst kvs)"
    and "(''include'', v) \<in> set kvs"
    and "\<forall>e \<in> set (elements v). \<forall>x. decS e = Inr x \<longrightarrow> encS x = e"
  shows "map_of (members (marshal_DeviceSettingsPolicy encF encS p)) ''include'' = Some v"
proof -
  have "(\<lambda>w. marshal_ptr (\<lambda>xs. JArray (map encS xs)) w = v) (DeviceSettingsPolicy.Include p)"
  proof (rule unmarshal_fields_get [where f = "DeviceSettingsPolicy.Include" and Q = "\<lambda>w. marshal_ptr (\<lambda>xs. JArray (map encS xs)) w = v", OF assms(1-3)])
    show "DeviceSettingsPolicy.Include y' = DeviceSettingsPolicy.Include y"
      if "k \<noteq> ''include''" and "DeviceSettingsPolicy_field decF decS k u y = Inr y'" for k u y y'
      using that by (rule other_include)
    show "(\<lambda>w. marshal_ptr (\<lambda>xs. JArray (map encS xs)) w = v) (DeviceSettingsPolicy.Include y')"
      if "DeviceSettingsPolicy.Include y = DeviceSettingsPolicy.Include zero_DeviceSettingsPolicy"
        and "DeviceSettingsPolicy_field decF decS ''include'' v y = Inr y'" for y y'
    proof -
      from that(2) obtain x where d: "unmarshal_slice_ptr decS v = Inr x"
        and y': "y' = y\<lparr>DeviceSettingsPolicy.Include := x\<rparr>"
        by (auto simp: DeviceSettingsPolicy_field_def store_Inr)
      from slice_ptr_round_trip [OF d assms(4)] show ?thesis by (simp add: y')
    qed
  qed
  then show ?thesis
    by (simp add: marshal_DeviceSettingsPolicy_def field_def)
qed

lemma other_exclude:
  "k \<noteq> ''exclude'' \<Longrightarrow> DeviceSettingsPolicy_field decF decS k u y = Inr y' \<Longrightarrow>
   DeviceSettingsPolicy.Exclude y' = DeviceSettingsPolicy.Exclude y"
  by (auto simp: DeviceSettingsPolicy_field_def store_Inr split: if_splits)

lemma preserved_exclude:
  assumes "unmarshal_fields (DeviceSettingsPolicy_field decF decS) kvs zero_DeviceSettingsPolicy = Inr p"
    and "distinct (map fst kvs)"
    and "(''exclude'', v) \<in> set kvs"
    and "\<forall>e \<in> set (elements v). \<forall>x. decS e = Inr x \<longrightarrow> encS x = e"
  shows "map_of (members (marshal_DeviceSettingsPolicy encF encS p)) ''exclude'' = Some v"
proof -
  have "(\<lambda>w. marshal_ptr (\<lambda>xs. JArray (map encS xs)) w = v) (DeviceSettingsPolicy.Exclude p)"
  proof (rule unmarshal_fields_get [where f = "DeviceSettingsPolicy.Exclude" and Q = "\<lambda>w. marshal_ptr (\<lambda>xs. JArray (map encS xs)) w = v", OF assms(1-3)])
    show "DeviceSettingsPolicy.Exclude y' = DeviceSettingsPolicy.Exclude y"
      if "k \<noteq> ''exclude''" and "DeviceSettingsPolicy_field decF decS k u y = Inr y'" for k u y y'
      using that by (rule other_exclude)
    show "(\<lambda>w. marshal_ptr (\<lambda>xs. JArray (map encS xs)) w = v) (DeviceSettingsPolicy.Exclude y')"
      if "DeviceSettingsPolicy.Exclude y = DeviceSettingsPolicy.Exclude zero_DeviceSettingsPolicy"
        and "DeviceSettingsPolicy_field decF decS ''exclude'' v y = Inr y'" for y y'
    proof -
      from that(2) obtain x where d: "unmarshal_slice_ptr decS v = Inr x"
        and y': "y' = y\<lparr>DeviceSettingsPolicy.Exclude := x\<rparr>"
        by (auto simp: DeviceSettingsPolicy_field_def store_Inr)
      from slice_ptr_round_trip [OF d assms(4)] show ?thesis by (simp add: y')
    qed
  qed
  then show ?thesis
    by (simp add: marshal_DeviceSettingsPolicy_def field_def)
qed

lemma other_gateway_unique_id:
  "k \<noteq> ''gateway_unique_id'' \<Longrightarrow> DeviceSettingsPolicy_field decF decS k u y = Inr y' \<Longrightarrow>
   DeviceSettingsPolicy.GatewayUniqueID y' = DeviceSettingsPolicy.GatewayUniqueID y"
  by (auto simp: DeviceSettingsPolicy_field_def store_Inr split: if_splits)

lemma preserved_gateway_unique_id:
  assumes "unmarshal_fields (DeviceSettingsPolicy_field decF decS) kvs zero_DeviceSettingsPolicy = Inr p"
    and "distinct (map fst kvs)"
    and "(''gateway_unique_id'', v) \<in> set kvs"
  shows "map_of (members (marshal_DeviceSettingsPolicy encF encS p)) ''gateway_unique_id'' = Some v"
proof -
  have "(\<lambda>w. marshal_ptr JString w = v) (DeviceSettingsPolicy.GatewayUniqueID p)"
  proof (rule unmarshal_fields_get [where f = "DeviceSettingsPolicy.GatewayUniqueID" and Q = "\<lambda>w. marshal_ptr JString w = v", OF assms(1-3)])
    show "DeviceSettingsPolicy.GatewayUniqueID y' = DeviceSettingsPolicy.GatewayUniqueID y"
      if "k \<noteq> ''gateway_unique_id''" and "DeviceSettingsPolicy_field decF decS k u y = Inr y'" for k u y y'
      using that by (rule other_gateway_unique_id)
    show "(\<lambda>w. marshal_ptr JString w = v) (DeviceSettingsPolicy.GatewayUniqueID y')"
      if "DeviceSettingsPolicy.GatewayUniqueID y = DeviceSettingsPolicy.GatewayUniqueID zero_DeviceSettingsPolicy"
        and "DeviceSettingsPolicy_field decF decS ''gateway_unique_id'' v y = Inr y'" for y y'
    proof -
      from that(2) obtain x where d: "unmarshal_string_ptr v = Inr x"
        and y': "y' = y\<lparr>DeviceSettingsPolicy.GatewayUniqueID := x\<rparr>"
        by (auto simp: DeviceSettingsPolicy_field_def store_Inr)
      from string_ptr_round_trip [OF d] show ?thesis by (simp add: y')
    qed
  qed
  then show ?thesis
    by (simp add: marshal_DeviceSettingsPolicy_def field_def)
qed

lemma other_support_url:
  "k \<noteq> ''support_url'' \<Longrightarrow> DeviceSettingsPolicy_field decF decS k u y = Inr y' \<Longrightarrow>
   DeviceSettingsPolicy.SupportURL y' = DeviceSettingsPolicy.SupportURL y"
  by (auto simp: DeviceSettingsPolicy_field_def store_Inr split: if_splits)

lemma preserved_support_url:
  assumes "unmarshal_fields (DeviceSettingsPolicy_field decF decS) kvs zero_DeviceSettingsPolicy = Inr p"
    and "distinct (map fst kvs)"
    and "(''support_url'', v) \<in> set kvs"
  shows "map_of (members (marshal_DeviceSettingsPolicy encF encS p)) ''support_url'' = Some v"
proof -
  have "(\<lambda>w. marshal_ptr JString w = v) (DeviceSettingsPolicy.SupportURL p)"
  proof (rule unmarshal_fields_get [where f = "DeviceSettingsPolicy.SupportURL" and Q = "\<lambda>w. marshal_ptr JString w = v", OF assms(1-3)])
    show "DeviceSettingsPolicy.SupportURL y' = DeviceSettingsPolicy.SupportURL y"
      if "k \<noteq> ''support_url''" and "DeviceSettingsPolicy_field decF decS k u y = Inr y'" for k u y y'
      using that by (rule other_support_url)
    show "(\<lambda>w. marshal_ptr JString w = v) (DeviceSettingsPolicy.SupportURL y')"
      if "DeviceSettingsPolicy.SupportURL y = DeviceSettingsPolicy.SupportURL zero_DeviceSettingsPolicy"
        and "DeviceSettingsPolicy_field decF decS ''support_url'' v y = Inr y'" for y y'
    proof -
      from that(2) obtain x where d: "unmarshal_string_ptr v = Inr x"
        and y': "y' = y\<lparr>DeviceSettingsPolicy.SupportURL := x\<rparr>"
        by (auto simp: DeviceSettingsPolicy_field_def store_Inr)
      from string_ptr_round_trip [OF d] show ?thesis by (simp add: y')
    qed
  qed
  then show ?thesis
    by (simp add: marshal_DeviceSettingsPolicy_def field_def)
qed

lemma other_captive_portal:
  "k \<noteq> ''captive_portal'' \<Longrightarrow> DeviceSettingsPolicy_field decF decS k u y = Inr y' \<Longrightarrow>
   DeviceSettingsPolicy.CaptivePortal y' = DeviceSettingsPolicy.CaptivePortal y"
  by (auto simp: DeviceSettingsPolicy_field_def store_Inr split: if_splits)

lemma preserved_captive_portal:
  assumes "unmarshal_fields (DeviceSettingsPolicy_field decF decS) kvs zero_DeviceSettingsPolicy = Inr p"
    and "distinct (map fst kvs)"
    and "(''captive_portal'', v) \<in> set kvs"
    and "\<forall>n. v = JNumber n \<longrightarrow> int_fits n"
  shows "map_of (members (marshal_DeviceSettingsPolicy encF encS p)) ''captive_portal'' = Some v"
proof -
  have "(\<lambda>w. marshal_ptr JNumber w = v) (DeviceSettingsPolicy.CaptivePortal p)"
  proof (rule unmarshal_fields_get [where f = "DeviceSettingsPolicy.CaptivePortal" and Q = "\<lambda>w. marshal_ptr JNumber w = v", OF assms(1-3)])
    show "DeviceSettingsPolicy.CaptivePortal y' = DeviceSettingsPolicy.CaptivePortal y"
      if "k \<noteq> ''captive_portal''" and "DeviceSettingsPolicy_field decF decS k u y = Inr y'" for k u y y'
      using that by (rule other_captive_portal)
    show "(\<lambda>w. marshal_ptr JNumber w = v) (DeviceSettingsPolicy.CaptivePortal y')"
      if "DeviceSettingsPolicy.CaptivePortal y = DeviceSettingsPolicy.CaptivePortal zero_DeviceSettingsPolicy"
        and "DeviceSettingsPolicy_field decF decS ''captive_portal'' v y = Inr y'" for y y'
    proof -
      from that(2) obtain x where d: "unmarshal_int_ptr v = Inr x"
        and y': "y' = y\<lparr>DeviceSettingsPolicy.CaptivePortal := x\<rparr>"
        by (auto simp: DeviceSettingsPolicy_field_def store_Inr)
      from int_ptr_round_trip [OF d assms(4)] show ?thesis by (simp add: y')
    qed
  qed
  then show ?thesis
    by (simp add: marshal_DeviceSettingsPolicy_def field_def)
qed

lemma other_allow_mode_switch:
  "k \<noteq> ''allow_mode_switch'' \<Longrightarrow> DeviceSettingsPolicy_field decF decS k u y = Inr y' \<Longrightarrow>
   DeviceSettingsPolicy.AllowModeSwitch y' = DeviceSettingsPolicy.AllowModeSwitch y"
  by (auto simp: DeviceSettingsPolicy_field_def store_Inr split: if_splits)

lemma preserved_allow_mode_switch:
  assumes "unmarshal_fields (DeviceSettingsPolicy_field decF decS) kvs zero_DeviceSettingsPolicy = Inr p"
    and "distinct (map fst kvs)"
    and "(''allow_mode_switch'', v) \<in> set kvs"
  shows "map_of (members (marshal_DeviceSettingsPolicy encF encS p)) ''allow_mode_switch'' = Some v"
proof -
  have "(\<lambda>w. marshal_ptr JBool w = v) (DeviceSettingsPolicy.AllowModeSwitch p)"
  proof (rule unmarshal_fields_get [where f = "DeviceSettingsPolicy.AllowModeSwitch" and Q = "\<lambda>w. marshal_ptr JBool w = v", OF assms(1-3)])
    show "DeviceSettingsPolicy.AllowModeSwitch y' = DeviceSettingsPolicy.AllowModeSwitch y"
      if "k \<noteq> ''allow_mode_switch''" and "DeviceSettingsPolicy_field decF decS k u y = Inr y'" for k u y y'
      using that by (rule other_allow_mode_switch)
    show "(\<lambda>w. marshal_ptr JBool w = v) (DeviceSettingsPolicy.AllowModeSwitch y')"
      if "DeviceSettingsPolicy.AllowModeSwitch y = DeviceSettingsPolicy.AllowModeSwitch zero_DeviceSettingsPolicy"
        and "DeviceSettingsPolicy_field decF decS ''allow_mode_switch'' v y = Inr y'" for y y'
    proof -
      from that(2) obtain x where d: "unmarshal_bool_ptr v = Inr x"
        and y': "y' = y\<lparr>DeviceSettingsPolicy.AllowModeSwitch := x\<rparr>"
        by (auto simp: DeviceSettingsPolicy_field_def store_Inr)
      from bool_ptr_round_trip [OF d] show ?thesis by (simp add: y')
    qed
  qed
  then show ?thesis
    by (simp add: marshal_DeviceSettingsPolicy_def field_def)
qed

lemma other_switch_locked:
  "k \<noteq> ''switch_locked'' \<Longrightarrow> DeviceSettingsPolicy_field decF decS k u y = Inr y' \<Longrightarrow>
   DeviceSettingsPolicy.SwitchLocked y' = DeviceSettingsPolicy.SwitchLocked y"
  by (auto simp: DeviceSettingsPolicy_field_def store_Inr split: if_splits)

lemma preserved_switch_locked:
  assumes "unmarshal_fields (DeviceSettingsPolicy_field decF decS) kvs zero_DeviceSettingsPolicy = Inr p"
    and "distinct (map fst kvs)"
    and "(''switch_locked'', v) \<in> set kvs"
  shows "map_of (members (marshal_DeviceSettingsPolicy encF encS p)) ''switch_locked'' = Some v"
proof -
  have "(\<lambda>w. marshal_ptr JBool w = v) (DeviceSettingsPolicy.SwitchLocked p)"
  proof (rule unmarshal_fields_get [where f = "DeviceSettingsPolicy.SwitchLocked" and Q = "\<lambda>w. marshal_ptr JBool w = v", OF assms(1-3)])
    show "DeviceSettingsPolicy.SwitchLocked y' = DeviceSettingsPolicy.SwitchLocked y"
      if "k \<noteq> ''switch_locked''" and "DeviceSettingsPolicy_field decF decS k u y = Inr y'" for k u y y'
      using that by (rule other_switch_locked)
    show "(\<lambda>w. marshal_ptr JBool w = v) (DeviceSettingsPolicy.SwitchLocked y')"
      if "DeviceSettingsPolicy.SwitchLocked y = DeviceSettingsPolicy.SwitchLocked zero_DeviceSettingsPolicy"
        and "DeviceSettingsPolicy_field decF decS ''switch_locked'' v y = Inr y'" for y y'
    proof -
      from that(2) obtain x where d: "unmarshal_bool_ptr v = Inr x"
        and y': "y' = y\<lparr>DeviceSettingsPolicy.SwitchLocked := x\<rparr>"
        by (auto simp: DeviceSettingsPolicy_field_def store_Inr)
      from bool_ptr_round_trip [OF d] show ?thesis by (simp add: y')
    qed
  qed
  then show ?thesis
    by (simp add: marshal_DeviceSettingsPolicy_def field_def)
qed

lemma other_allow_updates:
  "k \<noteq> ''allow_updates'' \<Longrightarrow> DeviceSettingsPolicy_field decF decS k u y = Inr y' \<Longrightarrow>
   DeviceSettingsPolicy.AllowUpdates y' = DeviceSettingsPolicy.AllowUpdates y"
  by (auto simp: DeviceSettingsPolicy_field_def store_Inr split: if_splits)

lemma preserved_allow_updates:
  assumes "unmarshal_fields (DeviceSettingsPolicy_field decF decS) kvs zero_DeviceSettingsPolicy = Inr p"
    and "distinct (map fst kvs)"
    and "(''allow_updates'', v) \<in> set kvs"
  shows "map_of (members (marshal_DeviceSettingsPolicy encF encS p)) ''allow_updates'' = Some v"
proof -
  have "(\<lambda>w. marshal_ptr JBool w = v) (DeviceSettingsPolicy.AllowUpdates p)"
  proof (rule unmarshal_fields_get [where f = "DeviceSettingsPolicy.AllowUpdates" and Q = "\<lambda>w. marshal_ptr JBool w = v", OF assms(1-3)])
    show "DeviceSettingsPolicy.AllowUpdates y' = DeviceSettingsPolicy.AllowUpdates y"
      if "k \<noteq> ''allow_updates''" and "DeviceSettingsPolicy_field decF decS k u y = Inr y'" for k u y y'
      using that by (rule other_allow_updates)
    show "(\<lambda>w. marshal_ptr JBool w = v) (DeviceSettingsPolicy.AllowUpdates y')"
      if "DeviceSettingsPolicy.AllowUpdates y = DeviceSettingsPolicy.AllowUpdates zero_DeviceSettingsPolicy"
        and "DeviceSettingsPolicy_field decF decS ''allow_updates'' v y = Inr y'" for y y'
    proof -
      from that(2) obtain x where d: "unmarshal_bool_ptr v = Inr x"
        and y': "y' = y\<lparr>DeviceSettingsPolicy.AllowUpdates := x\<rparr>"
        by (auto simp: DeviceSettingsPolicy_field_def store_Inr)
      from bool_ptr_round_trip [OF d] show ?thesis by (simp add: y')
    qed
  qed
  then show ?thesis
    by (simp add: marshal_DeviceSettingsPolicy_def field_def)
qed

lemma other_auto_connect:
  "k \<noteq> ''auto_connect'' \<Longrightarrow> DeviceSettingsPolicy_field decF decS k u y = Inr y' \<Longrightarrow>
   DeviceSettingsPolicy.AutoConnect y' = DeviceSettingsPolicy.AutoConnect y"
  by (auto simp: DeviceSettingsPolicy_field_def store_Inr split: if_splits)

lemma preserved_auto_connect:
  assumes "unmarshal_fields (DeviceSettingsPolicy_field decF decS) kvs zero_DeviceSettingsPolicy = Inr p"
    and "distinct (map fst kvs)"
    and "(''auto_connect'', v) \<in> set kvs"
    and "\<forall>n. v = JNumber n \<longrightarrow> int_fits n"
  shows "map_of (members (marshal_DeviceSettingsPolicy encF encS p)) ''auto_connect'' = Some v"
proof -
  have "(\<lambda>w. marshal_ptr JNumber w = v) (DeviceSettingsPolicy.AutoConnect p)"
  proof (rule unmarshal_fields_get [where f = "DeviceSettingsPolicy.AutoConnect" and Q = "\<lambda>w. marshal_ptr JNumber w = v", OF assms(1-3)])
    show "DeviceSettingsPolicy.AutoConnect y' = DeviceSettingsPolicy.AutoConnect y"
      if "k \<noteq> ''auto_connect''" and "DeviceSettingsPolicy_field decF decS k u y = Inr y'" for k u y y'
      using that by (rule other_auto_connect)
    show "(\<lambda>w. marshal_ptr JNumber w = v) (DeviceSettingsPolicy.AutoConnect y')"
      if "DeviceSettingsPolicy.AutoConnect y = DeviceSettingsPolicy.AutoConnect zero_DeviceSettingsPolicy"
        and "DeviceSettingsPolicy_field decF decS ''auto_connect'' v y = Inr y'" for y y'
    proof -
      from that(2) obtain x where d: "unmarshal_int_ptr v = Inr x"
        and y': "y' = y\<lparr>DeviceSettingsPolicy.AutoConnect := x\<rparr>"
        by (auto simp: DeviceSettingsPolicy_field_def store_Inr)
      from int_ptr_round_trip [OF d assms(4)] show ?thesis by (simp add: y')
    qed
  qed
  then show ?thesis
    by (simp add: marshal_DeviceSettingsPolicy_def field_def)
qed

lemma other_allowed_to_leave:
  "k \<noteq> ''allowed_to_leave'' \<Longrightarrow> DeviceSettingsPolicy_field decF decS k u y = Inr y' \<Longrightarrow>
   DeviceSettingsPolicy.AllowedToLeave y' = DeviceSettingsPolicy.AllowedToLeave y"
  by (auto simp: DeviceSettingsPolicy_field_def store_Inr split: if_splits)

lemma preserved_allowed_to_leave:
  assumes "unmarshal_fields (DeviceSettingsPolicy_field decF decS) kvs zero_DeviceSettingsPolicy = Inr p"
    and "distinct (map fst kvs)"
    and "(''allowed_to_leave'', v) \<in> set kvs"
  shows "map_of (members (marshal_DeviceSettingsPolicy encF encS p)) ''allowed_to_leave'' = Some v"
proof -
  have "(\<lambda>w. marshal_ptr JBool w = v) (DeviceSettingsPolicy.AllowedToLeave p)"
  proof (rule unmarshal_fields_get [where f = "DeviceSettingsPolicy.AllowedToLeave" and Q = "\<lambda>w. marshal_ptr JBool w = v", OF assms(1-3)])
    show "DeviceSettingsPolicy.AllowedToLeave y' = DeviceSettingsPolicy.AllowedToLeave y"
      if "k \<noteq> ''allowed_to_leave''" and "DeviceSettingsPolicy_field decF decS k u y = Inr y'" for k u y y'
      using that by (rule other_allowed_to_leave)
    show "(\<lambda>w. marshal_ptr JBool w = v) (DeviceSettingsPolicy.AllowedToLeave y')"
      if "DeviceSettingsPolicy.AllowedToLeave y = DeviceSettingsPolicy.AllowedToLeave zero_DeviceSettingsPolicy"
        and "DeviceSettingsPolicy_field decF decS ''allowed_to_leave'' v y = Inr y'" for y y'
    proof -
      from that(2) obtain x where d: "unmarshal_bool_ptr v = Inr x"
        and y': "y' = y\<lparr>DeviceSettingsPolicy.AllowedToLeave := x\<rparr>"
        by (auto simp: DeviceSettingsPolicy_field_def store_Inr)
      from bool_ptr_round_trip [OF d] show ?thesis by (simp add: y')
    qed
  qed
  then show ?thesis
    by (simp add: marshal_DeviceSettingsPolicy_def field_def)
qed

lemma other_policy_id:
  "k \<noteq> ''policy_id'' \<Longrightarrow> DeviceSettingsPolicy_field decF decS k u y = Inr y' \<Longrightarrow>
   DeviceSettingsPolicy.PolicyID y' = DeviceSettingsPolicy.PolicyID y"
  by (auto simp: DeviceSettingsPolicy_field_def store_Inr split: if_splits)

lemma preserved_policy_id:
  assumes "unmarshal_fields (DeviceSettingsPolicy_field decF decS) kvs zero_DeviceSettingsPolicy = Inr p"
    and "distinct (map fst kvs)"
    and "(''policy_id'', v) \<in> set kvs"
  shows "map_of (members (marshal_DeviceSettingsPolicy encF encS p)) ''policy_id'' = Some v"
proof -
  have "(\<lambda>w. marshal_ptr JString w = v) (DeviceSettingsPolicy.PolicyID p)"
  proof (rule unmarshal_fields_get [where f = "DeviceSettingsPolicy.PolicyID" and Q = "\<lambda>w. marshal_ptr JString w = v", OF assms(1-3)])
    show "DeviceSettingsPolicy.PolicyID y' = DeviceSettingsPolicy.PolicyID y"
      if "k \<noteq> ''policy_id''" and "DeviceSettingsPolicy_field decF decS k u y = Inr y'" for k u y y'
      using that by (rule other_policy_id)
    show "(\<lambda>w. marshal_ptr JString w = v) (DeviceSettingsPolicy.PolicyID y')"
      if "DeviceSettingsPolicy.PolicyID y = DeviceSettingsPolicy.PolicyID zero_DeviceSettingsPolicy"
        and "DeviceSettingsPolicy_field decF decS ''policy_id'' v y = Inr y'" for y y'
    proof -
      from that(2) obtain x where d: "unmarshal_string_ptr v = Inr x"
        and y': "y' = y\<lparr>DeviceSettingsPolicy.PolicyID := x\<rparr>"
        by (auto simp: DeviceSettingsPolicy_field_def store_Inr)
      from string_ptr_round_trip [OF d] show ?thesis by (simp add: y')
    qed
  qed
  then show ?thesis
    by (simp add: marshal_DeviceSettingsPolicy_def field_def)
qed

lemma other_enabled:
  "k \<noteq> ''enabled'' \<Longrightarrow> DeviceSettingsPolicy_field decF decS k u y = Inr y' \<Longrightarrow>
   DeviceSettingsPolicy.Enabled y' = DeviceSettingsPolicy.Enabled y"
  by (auto simp: DeviceSettingsPolicy_field_def store_Inr split: if_splits)

lemma preserved_enabled:
  assumes "unmarshal_fields (DeviceSettingsPolicy_field decF decS) kvs zero_DeviceSettingsPolicy = Inr p"
    and "distinct (map fst kvs)"
    and "(''enabled'', v) \<in> set kvs"
  shows "map_of (members (marshal_DeviceSettingsPolicy encF encS p)) ''enabled'' = Some v"
proof -
  have "(\<lambda>w. marshal_ptr JBool w = v) (DeviceSettingsPolicy.Enabled p)"
  proof (rule unmarshal_fields_get [where f = "DeviceSettingsPolicy.Enabled" and Q = "\<lambda>w. marshal_ptr JBool w = v", OF assms(1-3)])
    show "DeviceSettingsPolicy.Enabled y' = DeviceSettingsPolicy.Enabled y"
      if "k \<noteq> ''enabled''" and "DeviceSettingsPolicy_field decF decS k u y = Inr y'" for k u y y'
      using that by (rule other_enabled)
    show "(\<lambda>w. marshal_ptr JBool w = v) (DeviceSettingsPolicy.Enabled y')"
      if "DeviceSettingsPolicy.Enabled y = DeviceSettingsPolicy.Enabled zero_DeviceSettingsPolicy"
        and "DeviceSettingsPolicy_field decF decS ''enabled'' v y = Inr y'" for y y'
    proof -
      from that(2) obtain x where d: "unmarshal_bool_ptr v = Inr x"
        and y': "y' = y\<lparr>DeviceSettingsPolicy.Enabled := x\<rparr>"
        by (auto simp: DeviceSettingsPolicy_field_def store_Inr)
      from bool_ptr_round_trip [OF d] show ?thesis by (simp add: y')
    qed
  qed
  then show ?thesis
    by (simp add: marshal_DeviceSettingsPolicy_def field_def)
qed

lemma other_name:
  "k \<noteq> ''name'' \<Longrightarrow> DeviceSettingsPolicy_field decF decS k u y = Inr y' \<Longrightarrow>
   DeviceSettingsPolicy.Name y' = DeviceSettingsPolicy.Name y"
  by (auto simp: DeviceSettingsPolicy_field_def store_Inr split: if_splits)

lemma preserved_name:
  assumes "unmarshal_fields (DeviceSettingsPolicy_field decF decS) kvs zero_DeviceSettingsPolicy = Inr p"
    and "distinct (map fst kvs)"
    and "(''name'', v) \<in> set kvs"
  shows "map_of (members (marshal_DeviceSettingsPolicy encF encS p)) ''name'' = Some v"
proof -
  have "(\<lambda>w. marshal_ptr JString w = v) (DeviceSettingsPolicy.Name p)"
  proof (rule unmarshal_fields_get [where f = "DeviceSettingsPolicy.Name" and Q = "\<lambda>w. marshal_ptr JString w = v", OF assms(1-3)])
    show "DeviceSettingsPolicy.Name y' = DeviceSettingsPolicy.Name y"
      if "k \<noteq> ''name''" and "DeviceSettingsPolicy_field decF decS k u y = Inr y'" for k u y y'
      using that by (rule other_name)
    show "(\<lambda>w. marshal_ptr JString w = v) (DeviceSettingsPolicy.Name y')"
      if "DeviceSettingsPolicy.Name y = DeviceSettingsPolicy.Name zero_DeviceSettingsPolicy"
        and "DeviceSettingsPolicy_field decF decS ''name'' v y = Inr y'" for y y'
    proof -
      from that(2) obtain x where d: "unmarshal_string_ptr v = Inr x"
        and y': "y' = y\<lparr>DeviceSettingsPolicy.Name := x\<rparr>"
        by (auto simp: DeviceSettingsPolicy_field_def store_Inr)
      from string_ptr_round_trip [OF d] show ?thesis by (simp add: y')
    qed
  qed
  then show ?thesis
    by (simp add: marshal_DeviceSettingsPolicy_def field_def)
qed

lemma other_match:
  "k \<noteq> ''match'' \<Longrightarrow> DeviceSettingsPolicy_field decF decS k u y = Inr y' \<Longrightarrow>
   DeviceSettingsPolicy.Match y' = DeviceSettingsPolicy.Match y"
  by (auto simp: DeviceSettingsPolicy_field_def store_Inr split: if_splits)

lemma preserved_match:
  assumes "unmarshal_fields (DeviceSettingsPolicy_field decF decS) kvs zero_DeviceSettingsPolicy = Inr p"
    and "distinct (map fst kvs)"
    and "(''match'', v) \<in> set kvs"
  shows "map_of (members (marshal_DeviceSettingsPolicy encF encS p)) ''match'' = Some v"
proof -
  have "(\<lambda>w. marshal_ptr JString w = v) (DeviceSettingsPolicy.Match p)"
  proof (rule unmarshal_fields_get [where f = "DeviceSettingsPolicy.Match" and Q = "\<lambda>w. marshal_ptr JString w = v", OF assms(1-3)])
    show "DeviceSettingsPolicy.Match y' = DeviceSettingsPolicy.Match y"
      if "k \<noteq> ''match''" and "DeviceSettingsPolicy_field decF decS k u y = Inr y'" for k u y y'
      using that by (rule other_match)
    show "(\<lambda>w. marshal_ptr JString w = v) (DeviceSettingsPolicy.Match y')"
      if "DeviceSettingsPolicy.Match y = DeviceSettingsPolicy.Match zero_DeviceSettingsPolicy"
        and "DeviceSettingsPolicy_field decF decS ''match'' v y = Inr y'" for y y'
    proof -
      from that(2) obtain x where d: "unmarshal_string_ptr v = Inr x"
        and y': "y' = y\<lparr>DeviceSettingsPolicy.Match := x\<rparr>"
        by (auto simp: DeviceSettingsPolicy_field_def store_Inr)
      from string_ptr_round_trip [OF d] show ?thesis by (simp add: y')
    qed
  qed
  then show ?thesis
    by (simp add: marshal_DeviceSettingsPolicy_def field_def)
qed

lemma other_precedence:
  "k \<noteq> ''precedence'' \<Longrightarrow> DeviceSettingsPolicy_field decF decS k u y = Inr y' \<Longrightarrow>
   DeviceSettingsPolicy.Precedence y' = DeviceSettingsPolicy.Precedence y"
  by (auto simp: DeviceSettingsPolicy_field_def store_Inr split: if_splits)

lemma preserved_precedence:
  assumes "unmarshal_fields (DeviceSettingsPolicy_field decF decS) kvs zero_DeviceSettingsPolicy = Inr p"
    and "distinct (map fst kvs)"
    and "(''precedence'', v) \<in> set kvs"
    and "\<forall>n. v = JNumber n \<longrightarrow> int_fits n"
  shows "map_of (members (marshal_DeviceSettingsPolicy encF encS p)) ''precedence'' = Some v"
proof -
  have "(\<lambda>w. marshal_ptr JNumber w = v) (DeviceSettingsPolicy.Precedence p)"
  proof (rule unmarshal_fields_get [where f = "DeviceSettingsPolicy.Precedence" and Q = "\<lambda>w. marshal_ptr JNumber w = v", OF assms(1-3)])
    show "DeviceSettingsPolicy.Precedence y' = DeviceSettingsPolicy.Precedence y"
      if "k \<noteq> ''precedence''" and "DeviceSettingsPolicy_field decF decS k u y = Inr y'" for k u y y'
      using that by (rule other_precedence)
    show "(\<lambda>w. marshal_ptr JNumber w = v) (DeviceSettingsPolicy.Precedence y')"
      if "DeviceSettingsPolicy.Precedence y = DeviceSettingsPolicy.Precedence zero_DeviceSettingsPolicy"
        and "DeviceSettingsPolicy_field decF decS ''precedence'' v y = Inr y'" for y y'
    proof -
      from that(2) obtain x where d: "unmarshal_int_ptr v = Inr x"
        and y': "y' = y\<lparr>DeviceSettingsPolicy.Precedence := x\<rparr>"
        by (auto simp: DeviceSettingsPolicy_field_def store_Inr)
      from int_ptr_round_trip [OF d assms(4)] show ?thesis by (simp add: y')
    qed
  qed
  then show ?thesis
    by (simp add: marshal_DeviceSettingsPolicy_def field_def)
qed

lemma other_default:
  "k \<noteq> ''default'' \<Longrightarrow> DeviceSettingsPolicy_field decF decS k u y = Inr y' \<Longrightarrow>
   DeviceSettingsPolicy.Default y' = DeviceSettingsPolicy.Default y"
  by (auto simp: DeviceSettingsPolicy_field_def store_Inr split: if_splits)

lemma preserved_default:
  assumes "unmarshal_fields (DeviceSettingsPolicy_field decF decS) kvs zero_DeviceSettingsPolicy = Inr p"
    and "distinct (map fst kvs)"
    and "(''default'', v) \<in> set kvs"
    and "v \<noteq> JNull"
  shows "map_of (members (marshal_DeviceSettingsPolicy encF encS p)) ''default'' = Some v"
proof -
  have "(\<lambda>w. JBool w = v) (DeviceSettingsPolicy.Default p)"
  proof (rule unmarshal_fields_get [where f = "DeviceSettingsPolicy.Default" and Q = "\<lambda>w. JBool w = v", OF assms(1-3)])
    show "DeviceSettingsPolicy.Default y' = DeviceSettingsPolicy.Default y"
      if "k \<noteq> ''default''" and "DeviceSettingsPolicy_field decF decS k u y = Inr y'" for k u y y'
      using that by (rule other_default)
    show "(\<lambda>w. JBool w = v) (DeviceSettingsPolicy.Default y')"
      if "DeviceSettingsPolicy.Default y = DeviceSettingsPolicy.Default zero_DeviceSettingsPolicy"
        and "DeviceSettingsPolicy_field decF decS ''default'' v y = Inr y'" for y y'
    proof -
      from that(2) obtain x where d: "unmarshal_bool v (DeviceSettingsPolicy.Default y) = Inr x"
        and y': "y' = y\<lparr>DeviceSettingsPolicy.Default := x\<rparr>"
        by (auto simp: DeviceSettingsPolicy_field_def store_Inr)
      from bool_round_trip [OF d assms(4)] show ?thesis by (simp add: y')
    qed
  qed
  then show ?thesis
    by (simp add: marshal_DeviceSettingsPolicy_def field_def)
qed

lemma other_exclude_office_ips:
  "k \<noteq> ''exclude_office_ips'' \<Longrightarrow> DeviceSettingsPolicy_field decF decS k u y = Inr y' \<Longrightarrow>
   DeviceSettingsPolicy.ExcludeOfficeIps y' = DeviceSettingsPolicy.ExcludeOfficeIps y"
  by (auto simp: DeviceSettingsPolicy_field_def store_Inr split: if_splits)

lemma preserved_exclude_office_ips:
  assumes "unmarshal_fields (DeviceSettingsPolicy_field decF decS) kvs zero_DeviceSettingsPolicy = Inr p"
    and "distinct (map fst kvs)"
    and "(''exclude_office_ips'', v) \<in> set kvs"
  shows "map_of (members (marshal_DeviceSettingsPolicy encF encS p)) ''exclude_office_ips'' = Some v"
proof -
  have "(\<lambda>w. marshal_ptr JBool w = v) (DeviceSettingsPolicy.ExcludeOfficeIps p)"
  proof (rule unmarshal_fields_get [where f = "DeviceSettingsPolicy.ExcludeOfficeIps" and Q = "\<lambda>w. marshal_ptr JBool w = v", OF assms(1-3)])
    show "DeviceSettingsPolicy.ExcludeOfficeIps y' = DeviceSettingsPolicy.ExcludeOfficeIps y"
      if "k \<noteq> ''exclude_office_ips''" and "DeviceSettingsPolicy_field decF decS k u y = Inr y'" for k u y y'
      using that by (rule other_exclude_office_ips)
    show "(\<lambda>w. marshal_ptr JBool w = v) (DeviceSettingsPolicy.ExcludeOfficeIps y')"
      if "DeviceSettingsPolicy.ExcludeOfficeIps y = DeviceSettingsPolicy.ExcludeOfficeIps zero_DeviceSettingsPolicy"
        and "DeviceSettingsPolicy_field decF decS ''exclude_office_ips'' v y = Inr y'" for y y'
    proof -
      from that(2) obtain x where d: "unmarshal_bool_ptr v = Inr x"
        and y': "y' = y\<lparr>DeviceSettingsPolicy.ExcludeOfficeIps := x\<rparr>"
        by (auto simp: DeviceSettingsPolicy_field_def store_Inr)
      from bool_ptr_round_trip [OF d] show ?thesis by (simp add: y')
    qed
  qed
  then show ?thesis
    by (simp add: marshal_DeviceSettingsPolicy_def field_def)
qed

lemma other_description:
  "k \<noteq> ''description'' \<Longrightarrow> DeviceSettingsPolicy_field decF decS k u y = Inr y' \<Longrightarrow>
   DeviceSettingsPolicy.Description y' = DeviceSettingsPolicy.Description y"
  by (auto simp: DeviceSettingsPolicy_field_def store_Inr split: if_splits)

lemma preserved_description:
  assumes "unmarshal_fields (DeviceSettingsPolicy_field decF decS) kvs zero_DeviceSettingsPolicy = Inr p"
    and "distinct (map fst kvs)"
    and "(''description'', v) \<in> set kvs"
  shows "map_of (members (marshal_DeviceSettingsPolicy encF encS p)) ''description'' = Some v"
proof -
  have "(\<lambda>w. marshal_ptr JString w = v) (DeviceSettingsPolicy.Description p)"
  proof (rule unmarshal_fields_get [where f = "DeviceSettingsPolicy.Description" and Q = "\<lambda>w. marshal_ptr JString w = v", OF assms(1-3)])
    show "DeviceSettingsPolicy.Description y' = DeviceSettingsPolicy.Description y"
      if "k \<noteq> ''description''" and "DeviceSettingsPolicy_field decF decS k u y = Inr y'" for k u y y'
      using that by (rule other_description)
    show "(\<lambda>w. marshal_ptr JString w = v) (DeviceSettingsPolicy.Description y')"
      if "DeviceSettingsPolicy.Description y = DeviceSettingsPolicy.Description zero_DeviceSettingsPolicy"
        and "DeviceSettingsPolicy_field decF decS ''description'' v y = Inr y'" for y y'
    proof -
      from that(2) obtain x where d: "unmarshal_string_ptr v = Inr x"
        and y': "y' = y\<lparr>DeviceSettingsPolicy.Description := x\<rparr>"
        by (auto simp: DeviceSettingsPolicy_field_def store_Inr)
      from string_ptr_round_trip [OF d] show ?thesis by (simp add: y')
    qed
  qed
  then show ?thesis
    by (simp add: marshal_DeviceSettingsPolicy_def field_def)
qed

lemma wrap_int64_demo: "wrap_int64 0 = 0" "wrap_int64 10 = 10"
  by (simp_all add: wrap_int64_def)

lemma demo_payload_reencoded:
  "demo_reencode (JObject (demo_payload
      (JObject [(''mode'', JString ''proxy''), (''port'', JNumber n)]) (JNumber c) dflt)) =
   (if \<bar>n\<bar> < 10 ^ 19 \<and> \<bar>c\<bar> < 10 ^ 19 \<and> (dflt = JNull \<or> (\<exists>b. dflt = JBool b))
    then Inr (JObject (demo_payload
           (JObject ((''mode'', JString ''proxy'') #
              (if wrap_int64 n = 0 then [] else [(''port'', JNumber (wrap_int64 n))])))
           (JNumber (wrap_int64 c))
           (case dflt of JBool b \<Rightarrow> JBool b | _ \<Rightarrow> JBool False)))
    else Inl unmarshal_error)"
  by (cases dflt)
     (simp_all add: demo_reencode_def reencode_def unmarshal_DeviceSettingsPolicy_def
       DeviceSettingsPolicy_field_def unmarshal_ServiceModeV2_ptr_def ServiceModeV2_field_def
       store_def unmarshal_int_def marshal_DeviceSettingsPolicy_def marshal_ServiceModeV2_def
       field_def marshal_ptr_def zero_DeviceSettingsPolicy_def demo_payload_def
       demo_unmarshal_element_def demo_element_field_def demo_marshal_element_def
       wrap_int64_demo)

text \<open>
  C8, as the claim states it, fails in three ways, each shown on a payload with all 21
  members. The fields of \<^verbatim>\<open>ServiceModeV2\<close> are tagged \<^verbatim>\<open>omitempty\<close>, so a port of
  \<^verbatim>\<open>0\<close> that the payload carries is decoded and then left out by the encoder: the value
  of \<^verbatim>\<open>service_mode_v2\<close> has lost a member. An integer beyond Go's \<^verbatim>\<open>int\<close> is read
  with wrap-around, so \<^verbatim>\<open>captive_portal\<close> \<^verbatim>\<open>9223372036854775808\<close> comes back as
  \<^verbatim>\<open>-9223372036854775808\<close>. And \<^verbatim>\<open>default\<close> is not a pointer, so a \<^verbatim>\<open>null\<close> there
  comes back as \<^verbatim>\<open>false\<close>.
\<close>

theorem policy_reencode_changes_values:
  "demo_reencode (JObject (demo_payload
      (JObject [(''mode'', JString ''proxy''), (''port'', JNumber 0)]) (JNumber 180) (JBool False))) =
   Inr (JObject (demo_payload
      (JObject [(''mode'', JString ''proxy'')]) (JNumber 180) (JBool False)))
   \<and> \<not> same_json (JObject [(''mode'', JString ''proxy''), (''port'', JNumber 0)])
                  (JObject [(''mode'', JString ''proxy'')])
   \<and> demo_reencode (JObject (demo_payload
      (JObject [(''mode'', JString ''proxy''), (''port'', JNumber 3128)])
      (JNumber 9223372036854775808) (JBool False))) =
   Inr (JObject (demo_payload
      (JObject [(''mode'', JString ''proxy''), (''port'', JNumber 3128)])
      (JNumber (- 9223372036854775808)) (JBool False)))
   \<and> demo_reencode (JObject (demo_payload
      (JObject [(''mode'', JString ''proxy''), (''port'', JNumber 3128)]) (JNumber 180) JNull)) =
   Inr (JObject (demo_payload
      (JObject [(''mode'', JString ''proxy''), (''port'', JNumber 3128)]) (JNumber 180)
      (JBool False)))"
  by (simp add: demo_payload_reencoded) (auto simp: wrap_int64_def)

text \<open>
  C8, amended. Take a payload with the 21 members of a policy, each once, that decodes
  into a \<^verbatim>\<open>DeviceSettingsPolicy\<close>. Encoding the decoded policy gives an object with the
  same 21 members, and a member has the value it had in the payload whenever that value
  is not an integer beyond Go's \<^verbatim>\<open>int\<close>, is not \<^verbatim>\<open>null\<close> for \<^verbatim>\<open>default\<close>, and, for
  one of the three lists, has elements that their own codec gives back as they were.
  The value of \<^verbatim>\<open>service_mode_v2\<close> comes back with the same members, written in the
  order of the struct, when it is \<^verbatim>\<open>null\<close> or an object of a mode that is not \<^verbatim>\<open>""\<close>
  and a port that is not \<^verbatim>\<open>0\<close>, either of which may be missing.
\<close>

theorem policy_reencode_preserves_fields:
  assumes "reencode decF decS encF encS (JObject kvs) = Inr j'"
    and "distinct (map fst kvs)"
    and "set (map fst kvs) = set DeviceSettingsPolicy_keys"
    and "(k, v) \<in> set kvs"
    and "\<forall>n. v = JNumber n \<longrightarrow> int_fits n"
    and "k = ''default'' \<longrightarrow> v \<noteq> JNull"
    and "k = ''service_mode_v2'' \<longrightarrow> v = JNull \<or> kept_ServiceModeV2 v"
    and "k = ''fallback_domains'' \<longrightarrow>
           (\<forall>e \<in> set (elements v). \<forall>x. decF e = Inr x \<longrightarrow> encF x = e)"
    and "k = ''include'' \<or> k = ''exclude'' \<longrightarrow>
           (\<forall>e \<in> set (elements v). \<forall>x. decS e = Inr x \<longrightarrow> encS x = e)"
  shows "(\<exists>v'. map_of (members j') k = Some v' \<and> same_json v v')
       \<and> (k \<noteq> ''service_mode_v2'' \<longrightarrow> map_of (members j') k = Some v)
       \<and> map fst (members j') = DeviceSettingsPolicy_keys"
proof -
  from assms(1) obtain p
    where run: "unmarshal_fields (DeviceSettingsPolicy_field decF decS) kvs
                  zero_DeviceSettingsPolicy = Inr p"
      and j': "j' = marshal_DeviceSettingsPolicy encF encS p"
    by (auto simp: reencode_def unmarshal_DeviceSettingsPolicy_def split: sum.splits)
  have keys: "map fst (members j') = DeviceSettingsPolicy_keys"
    unfolding j' by (simp add: marshal_DeviceSettingsPolicy_def field_def DeviceSettingsPolicy_keys_def)
  from assms(4) have "k \<in> set (map fst kvs)"
    by force
  with assms(3) have key: "k \<in> set DeviceSettingsPolicy_keys"
    by simp
  note d = assms(2) and i = assms(5)
  have "(\<exists>v'. map_of (members j') k = Some v' \<and> same_json v v')
       \<and> (k \<noteq> ''service_mode_v2'' \<longrightarrow> map_of (members j') k = Some v)"
  proof -
    from key have
      "k = ''service_mode_v2'' \<or>
       k = ''disable_auto_fallback'' \<or>
       k = ''fallback_domains'' \<or>
       k = ''include'' \<or>
       k = ''exclude'' \<or>
       k = ''gateway_unique_id'' \<or>
       k = ''support_url'' \<or>
       k = ''captive_portal'' \<or>
       k = ''allow_mode_switch'' \<or>
       k = ''switch_locked'' \<or>
       k = ''allow_updates'' \<or>
       k = ''auto_connect'' \<or>
       k = ''allowed_to_leave'' \<or>
       k = ''policy_id'' \<or>
       k = ''enabled'' \<or>
       k = ''name'' \<or>
       k = ''match'' \<or>
       k = ''precedence'' \<or>
       k = ''default'' \<or>
       k = ''exclude_office_ips'' \<or>
       k = ''description''"
      by (simp add: DeviceSettingsPolicy_keys_def)
    then show ?thesis
    proof (elim disjE)
      assume k: "k = ''service_mode_v2''"
      from assms(4) k have m: "(''service_mode_v2'', v) \<in> set kvs" by simp
      from assms(7) k have x: "v = JNull \<or> kept_ServiceModeV2 v" by simp
      from preserved_service_mode_v2 [OF run d m x] show ?thesis unfolding j' k by simp
    next
      assume k: "k = ''disable_auto_fallback''"
      from assms(4) k have m: "(''disable_auto_fallback'', v) \<in> set kvs" by simp
      from preserved_disable_auto_fallback [OF run d m] show ?thesis unfolding j' k by (simp add: same_json_refl)
    next
      assume k: "k = ''fallback_domains''"
      from assms(4) k have m: "(''fallback_domains'', v) \<in> set kvs" by simp
      from assms(8) k have x: "\<forall>e \<in> set (elements v). \<forall>x. decF e = Inr x \<longrightarrow> encF x = e" by simp
      from preserved_fallback_domains [OF run d m x] show ?thesis unfolding j' k by (simp add: same_json_refl)
    next
      assume k: "k = ''include''"
      from assms(4) k have m: "(''include'', v) \<in> set kvs" by simp
      from assms(9) k have x: "\<forall>e \<in> set (elements v). \<forall>x. decS e = Inr x \<longrightarrow> encS x = e" by simp
      from preserved_include [OF run d m x] show ?thesis unfolding j' k by (simp add: same_json_refl)
    next
      assume k: "k = ''exclude''"
      from assms(4) k have m: "(''exclude'', v) \<in> set kvs" by simp
      from assms(9) k have x: "\<forall>e \<in> set (elements v). \<forall>x. decS e = Inr x \<longrightarrow> encS x = e" by simp
      from preserved_exclude [OF run d m x] show ?thesis unfolding j' k by (simp add: same_json_refl)
    next
      assume k: "k = ''gateway_unique_id''"
      from assms(4) k have m: "(''gateway_unique_id'', v) \<in> set kvs" by simp
      from preserved_gateway_unique_id [OF run d m] show ?thesis unfolding j' k by (simp add: same_json_refl)
    next
      assume k: "k = ''support_url''"
      from assms(4) k have m: "(''support_url'', v) \<in> set kvs" by simp
      from preserved_support_url [OF run d m] show ?thesis unfolding j' k by (simp add: same_json_refl)
    next
      assume k: "k = ''captive_portal''"
      from assms(4) k have m: "(''captive_portal'', v) \<in> set kvs" by simp
      from preserved_captive_portal [OF run d m i] show ?thesis unfolding j' k by (simp add: same_json_refl)
    next
      assume k: "k = ''allow_mode_switch''"
      from assms(4) k have m: "(''allow_mode_switch'', v) \<in> set kvs" by simp
      from preserved_allow_mode_switch [OF run d m] show ?thesis unfolding j' k by (simp add: same_json_refl)
    next
      assume k: "k = ''switch_locked''"
      from assms(4) k have m: "(''switch_locked'', v) \<in> set kvs" by simp
      from preserved_switch_locked [OF run d m] show ?thesis unfolding j' k by (simp add: same_json_refl)
    next
      assume k: "k = ''allow_updates''"
      from assms(4) k have m: "(''allow_updates'', v) \<in> set kvs" by simp
      from preserved_allow_updates [OF run d m] show ?thesis unfolding j' k by (simp add: same_json_refl)
    next
      assume k: "k = ''auto_connect''"
      from assms(4) k have m: "(''auto_connect'', v) \<in> set kvs" by simp
      from preserved_auto_connect [OF run d m i] show ?thesis unfolding j' k by (simp add: same_json_refl)
    next
      assume k: "k = ''allowed_to_leave''"
      from assms(4) k have m: "(''allowed_to_leave'', v) \<in> set kvs" by simp
      from preserved_allowed_to_leave [OF run d m] show ?thesis unfolding j' k by (simp add: same_json_refl)
    next
      assume k: "k = ''policy_id''"
      from assms(4) k have m: "(''policy_id'', v) \<in> set kvs" by simp
      from preserved_policy_id [OF run d m] show ?thesis unfolding j' k by (simp add: same_json_refl)
    next
      assume k: "k = ''enabled''"
      from assms(4) k have m: "(''enabled'', v) \<in> set kvs" by simp
      from preserved_enabled [OF run d m] show ?thesis unfolding j' k by (simp add: same_json_refl)
    next
      assume k: "k = ''name''"
      from assms(4) k have m: "(''name'', v) \<in> set kvs" by simp
      from preserved_name [OF run d m] show ?thesis unfolding j' k by (simp add: same_json_refl)
    next
      assume k: "k = ''match''"
      from assms(4) k have m: "(''match'', v) \<in> set kvs" by simp
      from preserved_match [OF run d m] show ?thesis unfolding j' k by (simp add: same_json_refl)
    next
      assume k: "k = ''precedence''"
      from assms(4) k have m: "(''precedence'', v) \<in> set kvs" by simp
      from preserved_precedence [OF run d m i] show ?thesis unfolding j' k by (simp add: same_json_refl)
    next
      assume k: "k = ''default''"
      from assms(4) k have m: "(''default'', v) \<in> set kvs" by simp
      from assms(6) k have x: "v \<noteq> JNull" by simp
      from preserved_default [OF run d m x] show ?thesis unfolding j' k by (simp add: same_json_refl)
    next
      assume k: "k = ''exclude_office_ips''"
      from assms(4) k have m: "(''exclude_office_ips'', v) \<in> set kvs" by simp
      from preserved_exclude_office_ips [OF run d m] show ?thesis unfolding j' k by (simp add: same_json_refl)
    next
      assume k: "k = ''description''"
      from assms(4) k have m: "(''description'', v) \<in> set kvs" by simp
      from preserved_description [OF run d m] show ?thesis unfolding j' k by (simp add: same_json_refl)
    qed
  qed
  with keys show ?thesis by simp
qed

theorem policy_reencode_preserves_fields_witness:
  "demo_reencode (JObject (demo_payload
      (JObject [(''port'', JNumber 3128), (''mode'', JString ''proxy'')]) (JNumber 180)
      (JBool False))) =
   Inr (JObject (demo_payload
      (JObject [(''mode'', JString ''proxy''), (''port'', JNumber 3128)]) (JNumber 180)
      (JBool False)))
   \<and> (\<exists>v'. map_of (members (JObject (demo_payload
                (JObject [(''mode'', JString ''proxy''), (''port'', JNumber 3128)]) (JNumber 180)
                (JBool False)))) ''service_mode_v2'' = Some v' \<and>
            same_json (JObject [(''port'', JNumber 3128), (''mode'', JString ''proxy'')]) v')
   \<and> map_of (members (JObject (demo_payload
          (JObject [(''mode'', JString ''proxy''), (''port'', JNumber 3128)]) (JNumber 180)
          (JBool False)))) ''fallback_domains'' =
     Some (JArray [JObject [(''suffix'', JString ''corp.example'')]])"
proof -
  let ?sm = "JObject [(''port'', JNumber 3128), (''mode'', JString ''proxy'')]"
  let ?sm' = "JObject [(''mode'', JString ''proxy''), (''port'', JNumber 3128)]"
  let ?in = "demo_payload ?sm (JNumber 180) (JBool False)"
  let ?out = "demo_payload ?sm' (JNumber 180) (JBool False)"
  let ?fd = "JArray [JObject [(''suffix'', JString ''corp.example'')]]"
  have w: "wrap_int64 3128 = 3128" "wrap_int64 180 = 180"
    by (simp_all add: wrap_int64_def)
  have h1: "reencode (demo_unmarshal_element ''suffix'') (demo_unmarshal_element ''address'')
              (demo_marshal_element ''suffix'') (demo_marshal_element ''address'') (JObject ?in) =
            Inr (JObject ?out)"
    by (simp add: reencode_def unmarshal_DeviceSettingsPolicy_def
       DeviceSettingsPolicy_field_def unmarshal_ServiceModeV2_ptr_def ServiceModeV2_field_def
       store_def unmarshal_int_def marshal_DeviceSettingsPolicy_def marshal_ServiceModeV2_def
       field_def marshal_ptr_def zero_DeviceSettingsPolicy_def demo_payload_def
       demo_unmarshal_element_def demo_element_field_def demo_marshal_element_def
       wrap_int64_demo w)
  have h2: "distinct (map fst ?in)"
    by (simp add: demo_payload_def)
  have h3: "set (map fst ?in) = set DeviceSettingsPolicy_keys"
    by (simp add: demo_payload_def DeviceSettingsPolicy_keys_def)
  have s4: "(''service_mode_v2'', ?sm) \<in> set ?in"
    by (simp add: demo_payload_def)
  have s5: "\<forall>n. ?sm = JNumber n \<longrightarrow> int_fits n"
    by simp
  have s6: "''service_mode_v2'' = ''default'' \<longrightarrow> ?sm \<noteq> JNull"
    by simp
  have s7: "''service_mode_v2'' = ''service_mode_v2'' \<longrightarrow> ?sm = JNull \<or> kept_ServiceModeV2 ?sm"
    by (simp add: int_fits_def)
  have s8: "''service_mode_v2'' = ''fallback_domains'' \<longrightarrow>
      (\<forall>e \<in> set (elements ?sm). \<forall>x. demo_unmarshal_element ''suffix'' e = Inr x \<longrightarrow>
         demo_marshal_element ''suffix'' x = e)"
    by simp
  have s9: "''service_mode_v2'' = ''include'' \<or> ''service_mode_v2'' = ''exclude'' \<longrightarrow>
      (\<forall>e \<in> set (elements ?sm). \<forall>x. demo_unmarshal_element ''address'' e = Inr x \<longrightarrow>
         demo_marshal_element ''address'' x = e)"
    by simp
  have f4: "(''fallback_domains'', ?fd) \<in> set ?in"
    by (simp add: demo_payload_def)
  have f5: "\<forall>n. ?fd = JNumber n \<longrightarrow> int_fits n"
    by simp
  have f6: "''fallback_domains'' = ''default'' \<longrightarrow> ?fd \<noteq> JNull"
    by simp
  have f7: "''fallback_domains'' = ''service_mode_v2'' \<longrightarrow> ?fd = JNull \<or> kept_ServiceModeV2 ?fd"
    by simp
  have f8: "''fallback_domains'' = ''fallback_domains'' \<longrightarrow>
      (\<forall>e \<in> set (elements ?fd). \<forall>x. demo_unmarshal_element ''suffix'' e = Inr x \<longrightarrow>
         demo_marshal_element ''suffix'' x = e)"
    by (auto simp: demo_unmarshal_element_def demo_element_field_def demo_marshal_element_def)
  have f9: "''fallback_domains'' = ''include'' \<or> ''fallback_domains'' = ''exclude'' \<longrightarrow>
      (\<forall>e \<in> set (elements ?fd). \<forall>x. demo_unmarshal_element ''address'' e = Inr x \<longrightarrow>
         demo_marshal_element ''address'' x = e)"
    by simp
  from policy_reencode_preserves_fields [OF h1 h2 h3 s4 s5 s6 s7 s8 s9, THEN conjunct1]
  have a: "\<exists>v'. map_of (members (JObject ?out)) ''service_mode_v2'' = Some v' \<and> same_json ?sm v'" .
  from policy_reencode_preserves_fields [OF h1 h2 h3 f4 f5 f6 f7 f8 f9, THEN conjunct2, THEN conjunct1]
  have b: "map_of (members (JObject ?out)) ''fallback_domains'' = Some ?fd"
    by simp
  from h1 a b show ?thesis
    unfolding demo_reencode_def by blast
qed

end
